theory Spec2Isabelle
  imports Complex_Main "HOL-Library.Log_Nat"
begin

section \<open>Numbers\<close>

text \<open>
  JavaScript numbers are IEEE 754 doubles. Two views of them are used.

  \<^item> The parameter \<open>t\<close> of the fiber loop of the Hopf tool is only ever added to, divided
    once and compared. These operations are correctly rounded, and the number of
    iterations of the loop depends on every bit of them, so they are modelled exactly:
    a double is the real number it denotes, and every operation is the exact operation
    followed by \<open>round_double\<close> (round to nearest, ties to even, 53 significant bits,
    subnormals below \<open>2 powi - 1022\<close>). Overflow to infinity is not modelled;
    the numbers of that loop lie between 0 and 8.
  \<^item> The pole guard of the stereographic tool compares the distance of the clicked point,
    whose coordinates are doubles, with the double \<open>0.08\<close>; that distance is a few
    products, sums and a square root, all correctly rounded, and is modelled exactly too
    (\<open>distanceTo_double\<close>).
  \<^item> Other coordinates pass through \<open>Math.sin\<close>, \<open>Math.cos\<close>, \<open>Math.acos\<close>, \<open>Math.atan2\<close> and
    \<open>Math.sqrt\<close>, whose last bits the language leaves to the implementation. They are
    modelled in exact real arithmetic, with \<open>Math.PI\<close> read as \<open>pi\<close>, and so is the test
    of the longitude loop on the distance of a sampled point, which is computed from
    them. A vector one of whose coordinates would be \<open>NaN\<close> or infinite is the vertex
    \<open>None\<close>.
\<close>

definition exponent_of :: "real \<Rightarrow> int" where
  \<comment> \<open>for \<open>q\<close> at least \<open>2 powi - 1074\<close>: the \<open>e\<close> with \<open>2 powi e \<le> q < 2 powi (e + 1)\<close>\<close>
  "exponent_of q = bitlen \<lfloor>q * 2 ^ 1074\<rfloor> - 1075"

definition round_half_even :: "real \<Rightarrow> int" where
  "round_half_even m = (let f = \<lfloor>m\<rfloor>; r = m - of_int f in
     if r < 1 / 2 then f else if 1 / 2 < r then f + 1 else if even f then f else f + 1)"

definition round_double :: "real \<Rightarrow> real" where
  "round_double q = (if q = 0 then 0 else
     let u = 2 powi (max (exponent_of \<bar>q\<bar> - 52) (- 1074))
     in of_int (round_half_even (q / u)) * u)"

definition MATH_PI :: real where
  \<comment> \<open>the double \<open>Math.PI\<close>, \<open>0x1.921fb54442d18p+1\<close>\<close>
  "MATH_PI = 884279719003555 / 281474976710656"

section \<open>Vectors and scene objects\<close>

datatype Vector3 = Vector3 (vec_x: real) (vec_y: real) (vec_z: real)

type_synonym vertex = "Vector3 option"

definition subVectors :: "Vector3 \<Rightarrow> Vector3 \<Rightarrow> Vector3" where
  "subVectors a b = Vector3 (vec_x a - vec_x b) (vec_y a - vec_y b) (vec_z a - vec_z b)"

definition vec_length :: "Vector3 \<Rightarrow> real" where
  "vec_length v = sqrt (vec_x v * vec_x v + vec_y v * vec_y v + vec_z v * vec_z v)"

definition distanceTo :: "Vector3 \<Rightarrow> Vector3 \<Rightarrow> real" where
  "distanceTo a b = vec_length (subVectors a b)"

text \<open>
  The same distance as three.js computes it from doubles: the differences, the squares and
  their sums from left to right, each rounded, and the correctly rounded square root that
  \<open>Math.sqrt\<close> is in every current engine. \<open>DOUBLE_0_08\<close> is the double that the literal
  \<open>0.08\<close> denotes.
\<close>

definition distanceTo_double :: "Vector3 \<Rightarrow> Vector3 \<Rightarrow> real" where
  "distanceTo_double a b =
     (let dx = round_double (vec_x a - vec_x b);
          dy = round_double (vec_y a - vec_y b);
          dz = round_double (vec_z a - vec_z b)
      in round_double (sqrt (round_double (round_double
           (round_double (dx * dx) + round_double (dy * dy)) + round_double (dz * dz)))))"

definition DOUBLE_0_08 :: real where
  "DOUBLE_0_08 = 5764607523034235 / 72057594037927936"

definition normalize :: "Vector3 \<Rightarrow> Vector3" where
  \<comment> \<open>three.js: \<open>divideScalar(length() || 1)\<close>\<close>
  "normalize v = (let l = (if vec_length v = 0 then 1 else vec_length v)
     in Vector3 (vec_x v / l) (vec_y v / l) (vec_z v / l))"

definition atan2 :: "real \<Rightarrow> real \<Rightarrow> real" where
  \<comment> \<open>\<open>Math.atan2(y, x)\<close>; signed zeros are not modelled\<close>
  "atan2 y x =
     (if 0 < x then arctan (y / x)
      else if x < 0 then (if 0 \<le> y then arctan (y / x) + pi else arctan (y / x) - pi)
      else if 0 < y then pi / 2
      else if y < 0 then - (pi / 2)
      else 0)"

text \<open>
  The objects the handlers add to a three.js group: a polyline with its vertices, colour
  and scale, or a small sphere (a marker) with its position, radius and colour.
  Opacity and the other material settings are left out.
\<close>

datatype Object3D =
    Line "vertex list" nat real
  | Mesh vertex real nat

text \<open>
  A click, as the handlers see it: whether its target is the canvas, and the points at
  which the ray through the pointer meets the sphere (the raycaster belongs to three.js).
\<close>

record click_event =
  target_is_canvas :: bool
  intersects :: "Vector3 list"

datatype mode_toggle = PointBox | LongitudeBox | LatitudeBox

section \<open>The Hopf tool\<close>

text \<open>
  The state of the Hopf tool: its flags, the colour index, the four groups and the
  \<open>checked\<close> property of the three checkboxes. The label and the opacity of the buttons,
  which the handlers also set, are left out, here and in the stereographic tool.
\<close>

record hopf_state =
  selectionMode :: bool
  longitudeMode :: bool
  latitudeMode :: bool
  holdScene :: bool
  fiberIndex :: nat
  markersGroup :: "Object3D list"
  fibersGroup :: "Object3D list"
  torusGroup :: "Object3D list"
  sphereLinesGroup :: "Object3D list"
  pointToggle :: bool
  longitudeToggle :: bool
  latitudeToggle :: bool

definition fiberColors :: "nat list" where
  "fiberColors = [16711680, 16744192, 16776960, 65280, 65535, 255,
                  8323327, 16711935, 16763904, 52479, 16733525, 5635925]"

definition clearPreviousSelections :: "hopf_state \<Rightarrow> hopf_state" where
  "clearPreviousSelections s =
     s\<lparr>markersGroup := [], fibersGroup := [], torusGroup := [], sphereLinesGroup := []\<rparr>"

definition hopf_reset_click :: "hopf_state \<Rightarrow> hopf_state" where
  "hopf_reset_click s =
     (clearPreviousSelections s)
       \<lparr>pointToggle := False, longitudeToggle := False, latitudeToggle := False,
        selectionMode := False, longitudeMode := False, latitudeMode := False,
        fiberIndex := 0, holdScene := False\<rparr>"

definition hopf_freeze_click :: "hopf_state \<Rightarrow> hopf_state" where
  "hopf_freeze_click s = s\<lparr>holdScene := \<not> holdScene s\<rparr>"

fun hopf_checked :: "mode_toggle \<Rightarrow> hopf_state \<Rightarrow> bool" where
  "hopf_checked PointBox s = pointToggle s"
| "hopf_checked LongitudeBox s = longitudeToggle s"
| "hopf_checked LatitudeBox s = latitudeToggle s"

fun hopf_set_checked :: "mode_toggle \<Rightarrow> bool \<Rightarrow> hopf_state \<Rightarrow> hopf_state" where
  "hopf_set_checked PointBox b s = s\<lparr>pointToggle := b\<rparr>"
| "hopf_set_checked LongitudeBox b s = s\<lparr>longitudeToggle := b\<rparr>"
| "hopf_set_checked LatitudeBox b s = s\<lparr>latitudeToggle := b\<rparr>"

text \<open>The \<open>change\<close> handler of checkbox \<open>t\<close>; it runs after the browser has flipped the box.\<close>

definition hopf_toggle_change :: "mode_toggle \<Rightarrow> hopf_state \<Rightarrow> hopf_state" where
  "hopf_toggle_change t s =
     (let s1 = (if hopf_checked t s
                then fold (\<lambda>other s'. if other \<noteq> t then hopf_set_checked other False s' else s')
                       [PointBox, LongitudeBox, LatitudeBox] s
                else s);
          s2 = clearPreviousSelections s1
      in s2\<lparr>selectionMode := pointToggle s2,
            longitudeMode := longitudeToggle s2,
            latitudeMode := latitudeToggle s2\<rparr>)"

text \<open>The user clicks checkbox \<open>t\<close>: the browser flips it and fires \<open>change\<close>.\<close>

definition hopf_user_toggles :: "mode_toggle \<Rightarrow> hopf_state \<Rightarrow> hopf_state" where
  "hopf_user_toggles t s = hopf_toggle_change t (hopf_set_checked t (\<not> hopf_checked t s) s)"

subsection \<open>The fiber generator\<close>

text \<open>
  \<^verbatim>\<open>for(let t=0;t<=Math.PI*2;t+=(2*Math.PI)/segments)\<close>: the values of \<open>t\<close> at which the
  body runs, in double arithmetic. The loop need not end (a step below half a unit in the
  last place of \<open>t\<close> no longer moves \<open>t\<close>), so its result is an option.
  The loop is written here as the list of its parameters, to which \<open>getHopfFiberPoints\<close>
  applies the body. \<open>segments\<close> is a count, below \<open>2 ^ 53\<close> and so a double as it
  stands. For 0 segments the step is \<open>Infinity\<close>: the body runs once, at 0, and the
  next \<open>t\<close> is above every double.
\<close>

partial_function (option) fiber_loop :: "real \<Rightarrow> real \<Rightarrow> real list \<Rightarrow> real list option" where
  "fiber_loop step t ts =
     (if t \<le> round_double (MATH_PI * 2)
      then fiber_loop step (round_double (t + step)) (ts @ [t])
      else Some ts)"

definition fiber_params :: "nat \<Rightarrow> real list option" where
  "fiber_params segments =
     (if segments = 0 then Some [0]
      else fiber_loop (round_double (round_double (2 * MATH_PI) / real segments)) 0 [])"

text \<open>The body of the loop: the point pushed for \<open>n\<close> at \<open>t\<close>. \<open>Math.acos\<close> is \<open>NaN\<close> outside \<open>[-1, 1]\<close>.\<close>

definition fiber_vertex :: "Vector3 \<Rightarrow> real \<Rightarrow> vertex" where
  "fiber_vertex n t =
     (if \<bar>vec_z n\<bar> \<le> 1 then
        (let theta = arccos (vec_z n);
             phi = atan2 (vec_y n) (vec_x n);
             x4 = cos (theta / 2) * cos t;
             y4 = cos (theta / 2) * sin t;
             z4 = sin (theta / 2) * cos (t + phi);
             w4 = sin (theta / 2) * sin (t + phi);
             d = max (1 - w4) (1 / 10000)
         in Some (Vector3 (x4 / d) (y4 / d) (z4 / d)))
      else None)"

definition getHopfFiberPoints :: "Vector3 \<Rightarrow> nat \<Rightarrow> vertex list option" where
  "getHopfFiberPoints n segments = map_option (map (fiber_vertex n)) (fiber_params segments)"

definition createHopfFiber :: "Vector3 \<Rightarrow> nat \<Rightarrow> Object3D list \<Rightarrow> Object3D list option" where
  "createHopfFiber n color grp =
     map_option (\<lambda>points. grp @ [Line points color 1]) (getHopfFiberPoints n 1000)"

definition createMarker :: "Vector3 \<Rightarrow> hopf_state \<Rightarrow> hopf_state" where
  "createMarker pos s = s\<lparr>markersGroup := markersGroup s @ [Mesh (Some pos) (15 / 1000) 0]\<rparr>"

definition drawSelectionCircle :: "Vector3 list \<Rightarrow> hopf_state \<Rightarrow> hopf_state" where
  "drawSelectionCircle points s =
     s\<lparr>sphereLinesGroup := [Line (map Some points) 0 (1005 / 1000)]\<rparr>"

subsection \<open>The click handler of the Hopf tool\<close>

definition current_color :: "hopf_state \<Rightarrow> nat" where
  "current_color s = fiberColors ! (fiberIndex s mod length fiberColors)"

definition hopf_point_selection :: "Vector3 \<Rightarrow> hopf_state \<Rightarrow> hopf_state option" where
  "hopf_point_selection point s =
     (let currentColor = current_color s;
          s1 = createMarker point (s\<lparr>fiberIndex := fiberIndex s + 1\<rparr>)
      in case createHopfFiber point currentColor (fibersGroup s1) of
           None \<Rightarrow> None
         | Some g \<Rightarrow> Some (s1\<lparr>fibersGroup := g\<rparr>))"

definition longitude_point :: "real \<Rightarrow> nat \<Rightarrow> Vector3" where
  "longitude_point phi i =
     (let theta = (real i / 200) * pi * 2
      in Vector3 (sin theta * cos phi) (sin theta * sin phi) (cos theta))"

fun hopf_longitude_loop ::
  "real \<Rightarrow> nat list \<Rightarrow> hopf_state \<Rightarrow> Vector3 list \<Rightarrow> (hopf_state \<times> Vector3 list) option" where
  "hopf_longitude_loop phi [] s pathPoints = Some (s, pathPoints)"
| "hopf_longitude_loop phi (i # rest) s pathPoints =
     (let p = longitude_point phi i in
      if i \<le> 100 then
        (case createHopfFiber p (current_color s) (torusGroup s) of
           None \<Rightarrow> None
         | Some g \<Rightarrow>
             hopf_longitude_loop phi rest
               (s\<lparr>torusGroup := g, fiberIndex := fiberIndex s + 1\<rparr>) (pathPoints @ [p]))
      else hopf_longitude_loop phi rest s (pathPoints @ [p]))"

definition hopf_longitude_selection :: "Vector3 \<Rightarrow> hopf_state \<Rightarrow> hopf_state option" where
  "hopf_longitude_selection point s =
     (let phi = atan2 (vec_y point) (vec_x point)
      in case hopf_longitude_loop phi [0..<201] (s\<lparr>torusGroup := []\<rparr>) [] of
           None \<Rightarrow> None
         | Some (s1, pathPoints) \<Rightarrow> Some (drawSelectionCircle pathPoints s1))"

definition latitude_point :: "real \<Rightarrow> real \<Rightarrow> nat \<Rightarrow> Vector3" where
  "latitude_point r pz i =
     (let t = (real i / 200) * 2 * pi
      in Vector3 (r * cos t) (r * sin t) pz)"

fun hopf_latitude_loop ::
  "real \<Rightarrow> real \<Rightarrow> nat list \<Rightarrow> hopf_state \<Rightarrow> Vector3 list \<Rightarrow> (hopf_state \<times> Vector3 list) option" where
  "hopf_latitude_loop r pz [] s pathPoints = Some (s, pathPoints)"
| "hopf_latitude_loop r pz (i # rest) s pathPoints =
     (let p = latitude_point r pz i in
      case createHopfFiber p (current_color s) (torusGroup s) of
        None \<Rightarrow> None
      | Some g \<Rightarrow>
          hopf_latitude_loop r pz rest
            (s\<lparr>torusGroup := g, fiberIndex := fiberIndex s + 1\<rparr>) (pathPoints @ [p]))"

definition hopf_latitude_selection :: "Vector3 \<Rightarrow> hopf_state \<Rightarrow> hopf_state option" where
  "hopf_latitude_selection point s =
     (let r = sqrt (1 - vec_z point * vec_z point)
      in case hopf_latitude_loop r (vec_z point) [0..<201] (s\<lparr>torusGroup := []\<rparr>) [] of
           None \<Rightarrow> None
         | Some (s1, pathPoints) \<Rightarrow> Some (drawSelectionCircle pathPoints s1))"

text \<open>
  The handler of a click on the window. \<open>None\<close>: the handler does not return, because a
  fiber loop does not end.
\<close>

definition hopf_click :: "click_event \<Rightarrow> hopf_state \<Rightarrow> hopf_state option" where
  "hopf_click event s =
     (if holdScene s then Some s
      else if \<not> target_is_canvas event then Some s
      else case intersects event of
        [] \<Rightarrow> Some s
      | hit # _ \<Rightarrow>
          (let point = normalize hit in
           case (if selectionMode s then hopf_point_selection point s else Some s) of
             None \<Rightarrow> None
           | Some s1 \<Rightarrow>
               (case (if longitudeMode s1 then hopf_longitude_selection point s1 else Some s1) of
                  None \<Rightarrow> None
                | Some s2 \<Rightarrow>
                    (if latitudeMode s2 then hopf_latitude_selection point s2 else Some s2))))"

section \<open>The stereographic tool\<close>

text \<open>
  The state of the stereographic tool: the frozen flag, the one group of drawn objects,
  whether the pole warning is displayed, and the \<open>checked\<close> property of the three
  checkboxes. The page of the tool declares the warning and the checkboxes, so the
  handlers' tests for their presence succeed.
\<close>

record stereo_state =
  isFrozen :: bool
  projectGroup :: "Object3D list"
  warning :: bool
  togglePoint :: bool
  toggleLongitude :: bool
  toggleLatitude :: bool

definition radius :: real where
  "radius = 1"

definition spherePos :: Vector3 where
  "spherePos = Vector3 0 radius 0"

definition northPolePos :: Vector3 where
  "northPolePos = Vector3 0 (radius * 2) 0"

definition SPHERE_COLOR :: nat where
  "SPHERE_COLOR = 16711935"

definition PLANE_COLOR :: nat where
  "PLANE_COLOR = 3329330"

definition resetExhibition :: "stereo_state \<Rightarrow> stereo_state" where
  "resetExhibition s =
     s\<lparr>projectGroup := [], warning := False,
       togglePoint := False, toggleLongitude := False, toggleLatitude := False\<rparr>"

definition stereo_reset_click :: "stereo_state \<Rightarrow> stereo_state" where
  "stereo_reset_click s = resetExhibition s"

definition stereo_freeze_click :: "stereo_state \<Rightarrow> stereo_state" where
  "stereo_freeze_click s = s\<lparr>isFrozen := \<not> isFrozen s\<rparr>"

fun stereo_checked :: "mode_toggle \<Rightarrow> stereo_state \<Rightarrow> bool" where
  "stereo_checked PointBox s = togglePoint s"
| "stereo_checked LongitudeBox s = toggleLongitude s"
| "stereo_checked LatitudeBox s = toggleLatitude s"

fun stereo_set_checked :: "mode_toggle \<Rightarrow> bool \<Rightarrow> stereo_state \<Rightarrow> stereo_state" where
  "stereo_set_checked PointBox b s = s\<lparr>togglePoint := b\<rparr>"
| "stereo_set_checked LongitudeBox b s = s\<lparr>toggleLongitude := b\<rparr>"
| "stereo_set_checked LatitudeBox b s = s\<lparr>toggleLatitude := b\<rparr>"

definition stereo_toggle_change :: "mode_toggle \<Rightarrow> stereo_state \<Rightarrow> stereo_state" where
  "stereo_toggle_change t s =
     (if stereo_checked t s
      then (fold (\<lambda>other s'. if other \<noteq> t then stereo_set_checked other False s' else s')
              [PointBox, LongitudeBox, LatitudeBox] s)
             \<lparr>projectGroup := [], warning := False\<rparr>
      else s)"

definition stereo_user_toggles :: "mode_toggle \<Rightarrow> stereo_state \<Rightarrow> stereo_state" where
  "stereo_user_toggles t s =
     stereo_toggle_change t (stereo_set_checked t (\<not> stereo_checked t s) s)"

text \<open>
  \<open>projectPoint\<close>: where the ray from the north pole through \<open>p\<close> meets the plane \<open>y = 0\<close>.
  When \<open>direction.y\<close> is zero, \<open>t\<close> is infinite and the \<open>x\<close> and \<open>z\<close> of the result
  are infinite or \<open>NaN\<close>.
\<close>

definition projectPoint :: "Vector3 \<Rightarrow> vertex" where
  "projectPoint p =
     (let direction = subVectors p northPolePos in
      if vec_y direction = 0 then None
      else (let t = - vec_y northPolePos / vec_y direction
            in Some (Vector3 (vec_x northPolePos + vec_x direction * t) 0
                             (vec_z northPolePos + vec_z direction * t))))"

definition drawLine :: "vertex list \<Rightarrow> nat \<Rightarrow> stereo_state \<Rightarrow> stereo_state" where
  "drawLine points color s = s\<lparr>projectGroup := projectGroup s @ [Line points color 1]\<rparr>"

definition stereo_point_selection :: "Vector3 \<Rightarrow> stereo_state \<Rightarrow> stereo_state" where
  "stereo_point_selection p s =
     (let proj = projectPoint p;
          s1 = drawLine [Some northPolePos, proj] 4473924 s;
          s2 = s1\<lparr>projectGroup := projectGroup s1 @ [Mesh (Some p) (25 / 1000) SPHERE_COLOR]\<rparr>
      in s2\<lparr>projectGroup := projectGroup s2 @ [Mesh proj (25 / 1000) PLANE_COLOR]\<rparr>)"

definition stereo_latitude_point :: "real \<Rightarrow> real \<Rightarrow> nat \<Rightarrow> Vector3" where
  "stereo_latitude_point r py i =
     (let angle = (real i / 128) * pi * 2
      in Vector3 (r * cos angle) py (r * sin angle))"

fun stereo_latitude_loop ::
  "real \<Rightarrow> real \<Rightarrow> nat list \<Rightarrow> Vector3 list \<Rightarrow> vertex list \<Rightarrow> Vector3 list \<times> vertex list" where
  "stereo_latitude_loop r py [] pointsSphere pointsPlane = (pointsSphere, pointsPlane)"
| "stereo_latitude_loop r py (i # rest) pointsSphere pointsPlane =
     (let sp = stereo_latitude_point r py i
      in stereo_latitude_loop r py rest (pointsSphere @ [sp]) (pointsPlane @ [projectPoint sp]))"

definition stereo_latitude_selection :: "Vector3 \<Rightarrow> stereo_state \<Rightarrow> stereo_state" where
  "stereo_latitude_selection p s =
     (let localY = vec_y p - vec_y spherePos;
          r = sqrt (max 0 (radius * radius - localY * localY))
      in case stereo_latitude_loop r (vec_y p) [0..<129] [] [] of
           (pointsSphere, pointsPlane) \<Rightarrow>
             drawLine pointsPlane PLANE_COLOR (drawLine (map Some pointsSphere) SPHERE_COLOR s))"

definition stereo_longitude_point :: "real \<Rightarrow> nat \<Rightarrow> Vector3" where
  "stereo_longitude_point angle i =
     (let phi = (real i / 128) * pi * 2
      in Vector3 (radius * cos phi * cos angle)
                 (radius * sin phi + vec_y spherePos)
                 (radius * cos phi * sin angle))"

fun stereo_longitude_loop ::
  "real \<Rightarrow> nat list \<Rightarrow> Vector3 list \<Rightarrow> vertex list \<Rightarrow> Vector3 list \<times> vertex list" where
  "stereo_longitude_loop angle [] pointsSphere pointsPlane = (pointsSphere, pointsPlane)"
| "stereo_longitude_loop angle (i # rest) pointsSphere pointsPlane =
     (let sp = stereo_longitude_point angle i
      in stereo_longitude_loop angle rest (pointsSphere @ [sp])
           (if 5 / 100 < distanceTo sp northPolePos
            then pointsPlane @ [projectPoint sp] else pointsPlane))"

definition stereo_longitude_selection :: "Vector3 \<Rightarrow> stereo_state \<Rightarrow> stereo_state" where
  "stereo_longitude_selection p s =
     (let angle = atan2 (vec_z p) (vec_x p)
      in case stereo_longitude_loop angle [0..<129] [] [] of
           (pointsSphere, pointsPlane) \<Rightarrow>
             (let s1 = drawLine (map Some pointsSphere) SPHERE_COLOR s
              in if 1 < length pointsPlane then drawLine pointsPlane PLANE_COLOR s1 else s1))"

definition stereo_click :: "click_event \<Rightarrow> stereo_state \<Rightarrow> stereo_state" where
  "stereo_click event s =
     (if isFrozen s then s
      else if \<not> target_is_canvas event then s
      else case intersects event of
        [] \<Rightarrow> s
      | p # _ \<Rightarrow>
          if distanceTo_double p northPolePos < DOUBLE_0_08 then s\<lparr>warning := True\<rparr>
          else
            (let s0 = s\<lparr>warning := False, projectGroup := []\<rparr>;
                 s1 = (if togglePoint s0 then stereo_point_selection p s0 else s0);
                 s2 = (if toggleLatitude s1 then stereo_latitude_selection p s1 else s1)
             in if toggleLongitude s2 then stereo_longitude_selection p s2 else s2))"

section \<open>The formulas of the specification\<close>

text \<open>
  The fiber over \<open>n\<close> as the specification words it: the four coordinates on the 3-sphere
  at the parameter \<open>t\<close>, the clamped divisor, and the projected point.
\<close>

definition spec_4d :: "Vector3 \<Rightarrow> real \<Rightarrow> real \<times> real \<times> real \<times> real" where
  "spec_4d n t =
     (let theta = arccos (vec_z n); phi = atan2 (vec_y n) (vec_x n)
      in (cos (theta / 2) * cos t, cos (theta / 2) * sin t,
          sin (theta / 2) * cos (t + phi), sin (theta / 2) * sin (t + phi)))"

definition spec_divisor :: "Vector3 \<Rightarrow> real \<Rightarrow> real" where
  "spec_divisor n t = (case spec_4d n t of (x4, y4, z4, w4) \<Rightarrow> max (1 - w4) (1 / 10000))"

definition spec_fiber_point :: "Vector3 \<Rightarrow> real \<Rightarrow> Vector3" where
  "spec_fiber_point n t =
     (case spec_4d n t of (x4, y4, z4, w4) \<Rightarrow>
        Vector3 (x4 / spec_divisor n t) (y4 / spec_divisor n t) (z4 / spec_divisor n t))"

definition unit_vector :: "Vector3 \<Rightarrow> bool" where
  "unit_vector n = (vec_x n * vec_x n + vec_y n * vec_y n + vec_z n * vec_z n = 1)"

text \<open>
  The fibers over the seed points \<open>ps\<close>, each with the parameters \<open>ts\<close>, coloured with
  consecutive entries of the palette from the index \<open>idx\<close> on.
\<close>

fun emitted_fibers :: "real list \<Rightarrow> nat \<Rightarrow> Vector3 list \<Rightarrow> Object3D list" where
  "emitted_fibers ts idx [] = []"
| "emitted_fibers ts idx (p # ps) =
     Line (map (fiber_vertex p) ts) (fiberColors ! (idx mod length fiberColors)) 1
       # emitted_fibers ts (idx + 1) ps"

text \<open>
  The points sampled on the longitude circle through \<open>p\<close> in the stereographic tool, and
  those of them that lie farther than 0.05 from the north pole.
\<close>

definition longitude_samples :: "Vector3 \<Rightarrow> Vector3 list" where
  "longitude_samples p = map (stereo_longitude_point (atan2 (vec_z p) (vec_x p))) [0..<129]"

definition projected_samples :: "Vector3 \<Rightarrow> Vector3 list" where
  "projected_samples p =
     filter (\<lambda>sp. 5 / 100 < distanceTo sp northPolePos) (longitude_samples p)"

section \<open>The fiber loop in units of \<open>2 powi - 60\<close>\<close>

text \<open>
  For the step of 1000 segments every value of \<open>t\<close> is a whole number of units of
  \<open>2 powi - 60\<close>, between \<open>2 ^ 52\<close> and \<open>2 ^ 63\<close> of them. On these, rounding to a double is
  rounding an integer to a multiple of a power of two, and the loop can be run on
  integers: \<open>fiber_run\<close> counts its iterations down from a given number and returns what
  is left of it when the loop ends.
\<close>

definition round_to_multiple :: "int \<Rightarrow> int \<Rightarrow> int" where
  "round_to_multiple N u = (let f = N div u; r = N mod u in
     if 2 * r < u then f * u else if u < 2 * r then (f + 1) * u
     else if even f then f * u else (f + 1) * u)"

definition round_units :: "int \<Rightarrow> int" where
  "round_units N =
     (if 4611686018427387904 \<le> N then round_to_multiple N 1024
      else if 2305843009213693952 \<le> N then round_to_multiple N 512
      else if 1152921504606846976 \<le> N then round_to_multiple N 256
      else if 576460752303423488 \<le> N then round_to_multiple N 128
      else if 288230376151711744 \<le> N then round_to_multiple N 64
      else if 144115188075855872 \<le> N then round_to_multiple N 32
      else if 72057594037927936 \<le> N then round_to_multiple N 16
      else if 36028797018963968 \<le> N then round_to_multiple N 8
      else if 18014398509481984 \<le> N then round_to_multiple N 4
      else if 9007199254740992 \<le> N then round_to_multiple N 2
      else N)"

fun fiber_run :: "nat \<Rightarrow> int \<Rightarrow> int \<Rightarrow> nat option" where
  "fiber_run 0 S T = None"
| "fiber_run (Suc fuel) S T =
     (if T \<le> 7244019458077122560
      then (if 4503599627370496 \<le> T + S \<and> T + S < 9223372036854775808
            then fiber_run fuel S (round_units (T + S)) else None)
      else Some fuel)"

text \<open>The parameters at which the body of the fiber loop runs for 12 segments.\<close>

definition params_12 :: "real list" where
  "params_12 =
     [0, 4716158501352293 / 9007199254740992, 4716158501352293 / 4503599627370496,
      884279719003555 / 562949953421312, 4716158501352293 / 2251799813685248,
      2947599063345183 / 1125899906842624, 7074237752028439 / 2251799813685248,
      515829836085407 / 140737488355328, 4716158501352293 / 1125899906842624,
      2652839157010665 / 562949953421312, 5895198126690367 / 1125899906842624,
      1621179484839851 / 281474976710656]"

section \<open>Initial states and state predicates\<close>

text \<open>
  The states in which the scripts start: every flag is \<open>false\<close>, the colour index is 0 and
  the groups are empty; no checkbox is checked and the warning is hidden.
\<close>

definition hopf_initial :: hopf_state where
  "hopf_initial =
     \<lparr>selectionMode = False, longitudeMode = False, latitudeMode = False, holdScene = False,
      fiberIndex = 0, markersGroup = [], fibersGroup = [], torusGroup = [],
      sphereLinesGroup = [], pointToggle = False, longitudeToggle = False,
      latitudeToggle = False\<rparr>"

definition stereo_initial :: stereo_state where
  "stereo_initial =
     \<lparr>isFrozen = False, projectGroup = [], warning = False,
      togglePoint = False, toggleLongitude = False, toggleLatitude = False\<rparr>"

definition at_most_one :: "bool \<Rightarrow> bool \<Rightarrow> bool \<Rightarrow> bool" where
  "at_most_one a b c = (\<not> (a \<and> b) \<and> \<not> (a \<and> c) \<and> \<not> (b \<and> c))"

text \<open>
  The events the handlers are registered for, and runs of the tools: the handlers of a
  list of events applied in turn. (Capture and resize touch neither state.) A run of the
  Hopf tool is \<open>None\<close> when one of its handlers does not return.
\<close>

datatype ui_event =
    Click click_event
  | ResetClick
  | FreezeClick
  | ToggleClick mode_toggle

fun hopf_handle :: "ui_event \<Rightarrow> hopf_state \<Rightarrow> hopf_state option" where
  "hopf_handle (Click event) s = hopf_click event s"
| "hopf_handle ResetClick s = Some (hopf_reset_click s)"
| "hopf_handle FreezeClick s = Some (hopf_freeze_click s)"
| "hopf_handle (ToggleClick t) s = Some (hopf_user_toggles t s)"

fun hopf_run :: "ui_event list \<Rightarrow> hopf_state \<Rightarrow> hopf_state option" where
  "hopf_run [] s = Some s"
| "hopf_run (e # es) s = (case hopf_handle e s of None \<Rightarrow> None | Some s' \<Rightarrow> hopf_run es s')"

fun stereo_handle :: "ui_event \<Rightarrow> stereo_state \<Rightarrow> stereo_state" where
  "stereo_handle (Click event) s = stereo_click event s"
| "stereo_handle ResetClick s = stereo_reset_click s"
| "stereo_handle FreezeClick s = stereo_freeze_click s"
| "stereo_handle (ToggleClick t) s = stereo_user_toggles t s"

fun stereo_run :: "ui_event list \<Rightarrow> stereo_state \<Rightarrow> stereo_state" where
  "stereo_run [] s = s"
| "stereo_run (e # es) s = stereo_run es (stereo_handle e s)"

definition hopf_modes_consistent :: "hopf_state \<Rightarrow> bool" where
  "hopf_modes_consistent s =
     (at_most_one (pointToggle s) (longitudeToggle s) (latitudeToggle s) \<and>
      selectionMode s = pointToggle s \<and>
      longitudeMode s = longitudeToggle s \<and>
      latitudeMode s = latitudeToggle s)"

definition hopf_artifacts :: "hopf_state \<Rightarrow> Object3D list" where
  "hopf_artifacts s = markersGroup s @ fibersGroup s @ torusGroup s @ sphereLinesGroup s"

definition click_at :: "Vector3 \<Rightarrow> click_event" where
  "click_at p = \<lparr>target_is_canvas = True, intersects = [p]\<rparr>"

text \<open>
  A point with double coordinates, on the sphere of the stereographic tool (centre
  \<open>(0, 1, 0)\<close>, radius 1) up to the rounding of its coordinates, a little nearer than 0.08
  to the north pole: \<open>(0.07993597437949951, 1.9968000000000004, 0)\<close>.
\<close>

definition near_rim_point :: Vector3 where
  "near_rim_point =
     Vector3 (719999248858023 / 9007199254740992) (281024616747919 / 140737488355328) 0"

section \<open>Rounding to a double\<close>

lemma bitlen_unique:
  assumes "2 ^ n \<le> N" "N < 2 ^ Suc n"
  shows "bitlen N = int n + 1"
proof -
  have pos: "0 < N"
    using assms(1) by (smt (verit) zero_less_power)
  define b where "b = bitlen N"
  have b1: "1 \<le> b"
    using pos bitlen_eq_zero_iff [of N] bitlen_nonneg [of N] unfolding b_def by linarith
  from bitlen_bounds [OF pos]
  have lo: "(2::int) ^ nat (b - 1) \<le> N" and hi: "N < 2 ^ nat b"
    by (simp_all add: b_def)
  have "(2::int) ^ nat (b - 1) < 2 ^ Suc n"
    using lo assms(2) by linarith
  then have "nat (b - 1) < Suc n"
    by (simp only: power_strict_increasing_iff [of 2 "nat (b - 1)" "Suc n"] rel_simps)
  moreover have "(2::int) ^ n < 2 ^ nat b"
    using hi assms(1) by linarith
  then have "n < nat b"
    by (simp only: power_strict_increasing_iff [of 2 n "nat b"] rel_simps)
  ultimately show ?thesis
    using b1 unfolding b_def [symmetric] by linarith
qed

lemma exponent_of_binade:
  assumes "2 powi j \<le> q" "q < 2 powi (j + 1)" "- 1074 \<le> j"
  shows "exponent_of q = j"
proof -
  define n where "n = nat (j + 1074)"
  have jn: "j = int n - 1074"
    using assms(3) by (simp add: n_def)
  have sc: "(2::real) powi j * 2 ^ 1074 = 2 ^ n"
  proof -
    have "(2::real) powi j * 2 powi 1074 = 2 powi (j + 1074)"
      by (rule power_int_add [symmetric]) simp
    also have "\<dots> = 2 powi (int n)"
      using jn by simp
    finally show ?thesis by simp
  qed
  have sc': "(2::real) powi (j + 1) * 2 ^ 1074 = 2 ^ Suc n"
  proof -
    have "(2::real) powi (j + 1) * 2 powi 1074 = 2 powi (j + 1 + 1074)"
      by (rule power_int_add [symmetric]) simp
    also have "\<dots> = 2 powi (int (Suc n))"
      using jn by simp
    finally show ?thesis by (simp only: power_int_of_nat power_int_numeral)
  qed
  have lo: "(2::real) ^ n \<le> q * 2 ^ 1074"
    using assms(1) unfolding sc [symmetric]
    by (simp only: mult_le_cancel_right_pos zero_less_power zero_less_numeral)
  have hi: "q * 2 ^ 1074 < 2 ^ Suc n"
    using assms(2) unfolding sc' [symmetric]
    by (simp only: mult_less_cancel_right_pos zero_less_power zero_less_numeral)
  have "(2::int) ^ n \<le> \<lfloor>q * 2 ^ 1074\<rfloor>"
    using lo by (simp only: le_floor_iff of_int_power of_int_numeral)
  moreover have "\<lfloor>q * 2 ^ 1074\<rfloor> < 2 ^ Suc n"
    using hi by (simp only: floor_less_iff of_int_power of_int_numeral)
  ultimately have "bitlen \<lfloor>q * 2 ^ 1074\<rfloor> = int n + 1"
    by (rule bitlen_unique)
  then show ?thesis
    using jn by (simp add: exponent_of_def)
qed

text \<open>
  Between two consecutive powers of two (a binade), above the subnormal range, rounding
  to a double is rounding to a multiple of the binade's unit in the last place.
\<close>

lemma round_double_binade:
  assumes "2 powi j \<le> q" "q < 2 powi (j + 1)" "- 1022 \<le> j"
  shows "round_double q = of_int (round_half_even (q / 2 powi (j - 52))) * 2 powi (j - 52)"
proof -
  have "0 < (2::real) powi j" by simp
  then have pos: "0 < q" using assms(1) by linarith
  have "exponent_of \<bar>q\<bar> = j"
    using exponent_of_binade [of j q] assms pos by simp
  moreover have "max (j - 52) (- 1074) = j - 52"
    using assms(3) by simp
  moreover have "q \<noteq> 0"
    using pos by simp
  ultimately show ?thesis
    unfolding round_double_def Let_def by (simp only: if_False)
qed

lemma round_double_m8:
  "1 / 256 \<le> q \<Longrightarrow> q < 1 / 128 \<Longrightarrow>
   round_double q = of_int (round_half_even (q * 2 ^ 60)) / 2 ^ 60"
  using round_double_binade [of "- 8" q] by (simp add: power_int_minus field_simps)

lemma round_double_m1:
  "1 / 2 \<le> q \<Longrightarrow> q < 1 \<Longrightarrow>
   round_double q = of_int (round_half_even (q * 2 ^ 53)) / 2 ^ 53"
  using round_double_binade [of "- 1" q] by (simp add: power_int_minus field_simps)

lemma round_double_0:
  "1 \<le> q \<Longrightarrow> q < 2 \<Longrightarrow>
   round_double q = of_int (round_half_even (q * 2 ^ 52)) / 2 ^ 52"
  using round_double_binade [of 0 q] by (simp add: power_int_minus field_simps)

lemma round_double_1:
  "2 \<le> q \<Longrightarrow> q < 4 \<Longrightarrow>
   round_double q = of_int (round_half_even (q * 2 ^ 51)) / 2 ^ 51"
  using round_double_binade [of 1 q] by (simp add: power_int_minus field_simps)

lemma round_double_2:
  "4 \<le> q \<Longrightarrow> q < 8 \<Longrightarrow>
   round_double q = of_int (round_half_even (q * 2 ^ 50)) / 2 ^ 50"
  using round_double_binade [of 2 q] by (simp add: power_int_minus field_simps)

lemmas round_double_binades =
  round_double_m8 round_double_m1 round_double_0 round_double_1 round_double_2

lemma two_pi_double: "round_double (MATH_PI * 2) = 884279719003555 / 140737488355328"
  by (simp add: MATH_PI_def round_double_binades round_half_even_def Let_def)

lemma two_pi_double': "round_double (2 * MATH_PI) = 884279719003555 / 140737488355328"
  by (simp add: MATH_PI_def round_double_binades round_half_even_def Let_def)

lemma step_12:
  "round_double (round_double (2 * MATH_PI) / real 12) = 4716158501352293 / 9007199254740992"
  unfolding two_pi_double'
  by (simp add: round_double_binades round_half_even_def Let_def)

lemma step_1000:
  "round_double (round_double (2 * MATH_PI) / real 1000)
     = of_int 7244019458077123 / 2 ^ 60"
  unfolding two_pi_double'
  by (simp add: round_double_binades round_half_even_def Let_def)

lemma round_half_even_minus: "round_half_even (- m) = - round_half_even m"
proof (cases "m = of_int \<lfloor>m\<rfloor>")
  case True
  then have "\<lfloor>- m\<rfloor> = - \<lfloor>m\<rfloor>"
    by (metis floor_of_int of_int_minus)
  with True show ?thesis
    by (simp add: round_half_even_def Let_def)
next
  case False
  then have f: "\<lfloor>- m\<rfloor> = - \<lfloor>m\<rfloor> - 1"
    by (simp add: floor_minus ceiling_altdef)
  have r: "- m - of_int (- \<lfloor>m\<rfloor> - 1) = 1 - (m - of_int \<lfloor>m\<rfloor>)"
    by simp
  show ?thesis
    unfolding round_half_even_def Let_def f r
    by (auto simp: not_less) (linarith+)?
qed

lemma round_double_minus: "round_double (- q) = - round_double q"
  by (simp add: round_double_def Let_def round_half_even_minus)

lemma round_half_even_near:
  assumes "of_int m - 1 / 2 < y" and "y < of_int m + 1 / 2"
  shows "round_half_even y = m"
proof (cases "of_int m \<le> y")
  case True
  with assms(2) have "\<lfloor>y\<rfloor> = m"
    by (intro floor_unique) simp_all
  with assms(2) show ?thesis
    by (simp add: round_half_even_def Let_def)
next
  case False
  with assms(1) have "\<lfloor>y\<rfloor> = m - 1"
    by (intro floor_unique) simp_all
  with assms(1) show ?thesis
    by (simp add: round_half_even_def Let_def)
qed

text \<open>
  A number strictly between the two midpoints around a double of its binade rounds to
  that double.
\<close>

lemma round_double_near:
  assumes "2 powi j \<le> q" and "q < 2 powi (j + 1)" and "- 1022 \<le> j"
    and "(of_int m - 1 / 2) * 2 powi (j - 52) < q"
    and "q < (of_int m + 1 / 2) * 2 powi (j - 52)"
  shows "round_double q = of_int m * 2 powi (j - 52)"
proof -
  have u: "0 < (2::real) powi (j - 52)"
    by simp
  from assms(4) u have "of_int m - 1 / 2 < q / 2 powi (j - 52)"
    by (simp add: pos_less_divide_eq)
  moreover from assms(5) u have "q / 2 powi (j - 52) < of_int m + 1 / 2"
    by (simp add: pos_divide_less_eq)
  ultimately have "round_half_even (q / 2 powi (j - 52)) = m"
    by (rule round_half_even_near)
  with round_double_binade [OF assms(1-3)] show ?thesis
    by simp
qed

lemma round_double_m17:
  "1 / 131072 \<le> q \<Longrightarrow> q < 1 / 65536 \<Longrightarrow>
   round_double q = of_int (round_half_even (q * 2 ^ 69)) / 2 ^ 69"
  using round_double_binade [of "- 17" q] by (simp add: power_int_minus field_simps)

lemma round_double_m9:
  "1 / 512 \<le> q \<Longrightarrow> q < 1 / 256 \<Longrightarrow>
   round_double q = of_int (round_half_even (q * 2 ^ 61)) / 2 ^ 61"
  using round_double_binade [of "- 9" q] by (simp add: power_int_minus field_simps)

lemma round_double_m4:
  "1 / 16 \<le> q \<Longrightarrow> q < 1 / 8 \<Longrightarrow>
   round_double q = of_int (round_half_even (q * 2 ^ 56)) / 2 ^ 56"
  using round_double_binade [of "- 4" q] by (simp add: power_int_minus field_simps)

lemma powi_diff_nat: "(2::real) powi (int a - int b) = 2 ^ a / 2 ^ b"
proof -
  have "(2::real) powi (int a - int b) = 2 powi int a / 2 powi int b"
    by (rule power_int_diff) simp
  then show ?thesis
    by (simp only: power_int_of_nat)
qed

text \<open>
  The error of rounding: at most half a unit in the last place, that is at most \<open>2 powi - 53\<close>
  of the number, or \<open>2 powi - 1075\<close> among the subnormals.
\<close>

lemma round_half_even_error: "\<bar>of_int (round_half_even m) - m\<bar> \<le> 1 / 2"
proof -
  have "of_int \<lfloor>m\<rfloor> \<le> m" and "m < of_int \<lfloor>m\<rfloor> + 1"
    by linarith+
  then show ?thesis
    by (auto simp: round_half_even_def Let_def)
qed

lemma unit_of_bound:
  assumes "0 < q"
  shows "2 powi (max (exponent_of q - 52) (- 1074)) \<le> max (q / 2 ^ 52) (2 powi (- 1074))"
proof (cases "0 < \<lfloor>q * 2 ^ 1074\<rfloor>")
  case False
  moreover have "0 \<le> \<lfloor>q * 2 ^ 1074\<rfloor>"
    using assms by simp
  ultimately have "\<lfloor>q * 2 ^ 1074\<rfloor> = 0"
    by linarith
  then have "exponent_of q = - 1075"
    by (simp add: exponent_of_def)
  then show ?thesis
    by simp
next
  case True
  define N where "N = \<lfloor>q * 2 ^ 1074\<rfloor>"
  define b where "b = bitlen N"
  have pos: "0 < N"
    using True by (simp add: N_def)
  have b1: "1 \<le> b"
    using pos bitlen_eq_zero_iff [of N] bitlen_nonneg [of N] unfolding b_def by linarith
  from bitlen_bounds [OF pos] have "(2::int) ^ nat (b - 1) \<le> N"
    by (simp add: b_def)
  then have "real_of_int (2 ^ nat (b - 1)) \<le> of_int N"
    by (simp only: of_int_le_iff)
  also have "\<dots> \<le> q * 2 ^ 1074"
    by (simp add: N_def)
  finally have le: "(2::real) ^ nat (b - 1) \<le> q * 2 ^ 1074"
    by simp
  have e: "exponent_of q = int (nat (b - 1)) - int 1074"
    using b1 by (simp add: exponent_of_def N_def b_def)
  have "(2::real) powi (exponent_of q) = 2 ^ nat (b - 1) / 2 ^ 1074"
    unfolding e by (rule powi_diff_nat)
  also have "\<dots> \<le> q"
    using le by (simp add: field_simps)
  finally have "(2::real) powi (exponent_of q) \<le> q" .
  moreover have "(2::real) powi (exponent_of q - 52) = 2 powi (exponent_of q) / 2 ^ 52"
    by (simp add: power_int_diff)
  ultimately have "(2::real) powi (exponent_of q - 52) \<le> q / 2 ^ 52"
    by (simp add: divide_right_mono)
  then show ?thesis
    by (cases "exponent_of q - 52 \<le> - 1074") (simp_all add: max_def)
qed

lemma round_double_error: "\<bar>round_double q - q\<bar> \<le> \<bar>q\<bar> / 2 ^ 53 + 2 powi (- 1075)"
proof (cases "q = 0")
  case True
  then show ?thesis
    by (simp add: round_double_def)
next
  case False
  define u :: real where "u = 2 powi (max (exponent_of \<bar>q\<bar> - 52) (- 1074))"
  have u: "0 < u"
    by (simp add: u_def)
  have rd: "round_double q = of_int (round_half_even (q / u)) * u"
    using False by (simp add: round_double_def Let_def u_def)
  have "round_double q - q = (of_int (round_half_even (q / u)) - q / u) * u"
    using u by (simp add: rd field_simps)
  then have "\<bar>round_double q - q\<bar> = \<bar>of_int (round_half_even (q / u)) - q / u\<bar> * u"
    using u by (simp add: abs_mult)
  also have "\<dots> \<le> 1 / 2 * u"
    using u by (intro mult_right_mono round_half_even_error) simp
  also have "\<dots> \<le> 1 / 2 * max (\<bar>q\<bar> / 2 ^ 52) (2 powi (- 1074))"
    using unit_of_bound [of "\<bar>q\<bar>"] False by (simp add: u_def)
  also have "\<dots> \<le> \<bar>q\<bar> / 2 ^ 53 + 2 powi (- 1075)"
  proof -
    have "(2::real) powi (- 1074) = 2 * 2 powi (- 1075)"
      by (simp add: power_int_minus)
    moreover have "0 < (2::real) powi (- 1075)"
      by simp
    moreover have "\<bar>q\<bar> / 2 ^ 52 = 2 * (\<bar>q\<bar> / 2 ^ 53)"
      by simp
    ultimately show ?thesis
      by (simp add: max_def)
  qed
  finally show ?thesis .
qed

lemma round_double_close: "\<bar>round_double q - q\<bar> \<le> \<bar>q\<bar> / 10 ^ 15 + 1 / 10 ^ 30"
proof -
  have "(2::real) powi (- 1075) \<le> 2 powi (- 100)"
    by (rule power_int_increasing) simp_all
  also have "\<dots> \<le> 1 / 10 ^ 30"
    by (simp add: power_int_minus)
  finally have "(2::real) powi (- 1075) \<le> 1 / 10 ^ 30" .
  moreover have "\<bar>q\<bar> / 2 ^ 53 \<le> \<bar>q\<bar> / 10 ^ 15"
    by (intro divide_left_mono) simp_all
  ultimately show ?thesis
    using round_double_error [of q] by linarith
qed

lemma round_double_nonneg:
  assumes "0 \<le> q"
  shows "0 \<le> round_double q"
proof (cases "q = 0")
  case True
  then show ?thesis
    by (simp add: round_double_def)
next
  case False
  define u :: real where "u = 2 powi (max (exponent_of \<bar>q\<bar> - 52) (- 1074))"
  have u: "0 < u"
    by (simp add: u_def)
  with assms have "0 \<le> \<lfloor>q / u\<rfloor>"
    by simp
  then have "0 \<le> round_half_even (q / u)"
    by (simp add: round_half_even_def Let_def)
  with u have "0 \<le> of_int (round_half_even (q / u)) * u"
    by simp
  then show ?thesis
    using False by (simp add: round_double_def Let_def u_def)
qed


section \<open>Running the fiber loop\<close>

lemma fiber_loop_step:
  "t \<le> round_double (MATH_PI * 2) \<Longrightarrow>
   fiber_loop step t ts = fiber_loop step (round_double (t + step)) (ts @ [t])"
  by (subst fiber_loop.simps) simp

lemma fiber_loop_stop:
  "\<not> t \<le> round_double (MATH_PI * 2) \<Longrightarrow> fiber_loop step t ts = Some ts"
  by (subst fiber_loop.simps) simp

text \<open>
  With 12 segments the loop runs 12 times, not 13: the twelfth sum is one unit in the
  last place above the double \<open>2 * Math.PI\<close>.
\<close>

lemma fiber_params_positive:
  "0 < segments \<Longrightarrow>
   fiber_params segments
     = fiber_loop (round_double (round_double (2 * MATH_PI) / real segments)) 0 []"
  by (simp add: fiber_params_def)

lemma fiber_params_12: "fiber_params 12 = Some params_12"
  unfolding fiber_params_positive [of 12, simplified zero_less_numeral, OF TrueI]
    step_12 params_12_def
  by (simp add: fiber_loop_step fiber_loop_stop two_pi_double round_double_binades
      round_half_even_def Let_def)

lemma length_params_12: "length params_12 = 12"
  by (simp add: params_12_def)

lemma twelfth_sum_overshoots:
  "round_double (1621179484839851 / 281474976710656 + 4716158501352293 / 9007199254740992)
     = 7074237752028441 / 1125899906842624 \<and>
   round_double (MATH_PI * 2) = 7074237752028440 / 1125899906842624"
  by (simp add: two_pi_double round_double_binades round_half_even_def Let_def)

section \<open>The loop on integers\<close>

lemma round_half_even_fraction:
  assumes "0 < u"
  shows "real_of_int (round_half_even (of_int N / of_int u)) * of_int u
    = of_int (round_to_multiple N u)"
proof -
  have fl: "\<lfloor>real_of_int N / of_int u\<rfloor> = N div u"
    by (rule floor_divide_of_int_eq)
  have "real_of_int N = of_int (N div u) * of_int u + of_int (N mod u)"
    by (metis div_mult_mod_eq of_int_add of_int_mult)
  then have fr: "real_of_int N / of_int u - of_int (N div u) = of_int (N mod u) / of_int u"
    using assms by (simp add: field_simps)
  have lt: "real_of_int (N mod u) / of_int u < 1 / 2 \<longleftrightarrow> 2 * (N mod u) < u"
    using assms by (simp add: field_simps) linarith
  have gt: "1 / 2 < real_of_int (N mod u) / of_int u \<longleftrightarrow> u < 2 * (N mod u)"
    using assms by (simp add: field_simps) linarith
  show ?thesis
    unfolding round_half_even_def round_to_multiple_def Let_def fl fr lt gt
    by simp
qed

lemma round_double_units:
  assumes "2 ^ (52 + k) \<le> N" "N < 2 ^ (53 + k)"
  shows "round_double (of_int N / 2 ^ 60) = of_int (round_to_multiple N (2 ^ k)) / 2 ^ 60"
proof -
  define j where "j = int k - 8"
  have "j = int (52 + k) - int 60"
    by (simp add: j_def)
  then have p1: "(2::real) powi j = 2 ^ (52 + k) / 2 ^ 60"
    by (simp only: powi_diff_nat)
  have "j + 1 = int (53 + k) - int 60"
    by (simp add: j_def)
  then have p2: "(2::real) powi (j + 1) = 2 ^ (53 + k) / 2 ^ 60"
    by (simp only: powi_diff_nat)
  have "j - 52 = int k - int 60"
    by (simp add: j_def)
  then have p3: "(2::real) powi (j - 52) = 2 ^ k / 2 ^ 60"
    by (simp only: powi_diff_nat)
  have "real_of_int (2 ^ (52 + k)) \<le> of_int N"
    using assms(1) by (simp only: of_int_le_iff)
  then have lo: "2 powi j \<le> real_of_int N / 2 ^ 60"
    unfolding p1 by (simp add: divide_le_cancel)
  have "real_of_int N < of_int (2 ^ (53 + k))"
    using assms(2) by (simp only: of_int_less_iff)
  then have hi: "real_of_int N / 2 ^ 60 < 2 powi (j + 1)"
    unfolding p2 by (simp add: divide_less_cancel)
  have j: "- 1022 \<le> j"
    by (simp add: j_def)
  have q: "real_of_int N / 2 ^ 60 / (2 ^ k / 2 ^ 60) = of_int N / of_int (2 ^ k)"
    by simp
  have "round_double (of_int N / 2 ^ 60)
      = of_int (round_half_even (of_int N / of_int (2 ^ k))) * (2 ^ k / 2 ^ 60)"
    using round_double_binade [OF lo hi j] unfolding p3 q .
  also have "\<dots> = (of_int (round_half_even (of_int N / of_int (2 ^ k))) * of_int (2 ^ k)) / 2 ^ 60"
    by simp
  also have "\<dots> = of_int (round_to_multiple N (2 ^ k)) / 2 ^ 60"
    by (subst round_half_even_fraction) simp_all
  finally show ?thesis .
qed

lemma round_units_correct:
  assumes "4503599627370496 \<le> N" "N < 9223372036854775808"
  shows "round_double (of_int N / 2 ^ 60) = of_int (round_units N) / 2 ^ 60"
proof -
  consider "N < 2 ^ 53" | "2 ^ 53 \<le> N" "N < 2 ^ 54" | "2 ^ 54 \<le> N" "N < 2 ^ 55"
    | "2 ^ 55 \<le> N" "N < 2 ^ 56" | "2 ^ 56 \<le> N" "N < 2 ^ 57" | "2 ^ 57 \<le> N" "N < 2 ^ 58"
    | "2 ^ 58 \<le> N" "N < 2 ^ 59" | "2 ^ 59 \<le> N" "N < 2 ^ 60" | "2 ^ 60 \<le> N" "N < 2 ^ 61"
    | "2 ^ 61 \<le> N" "N < 2 ^ 62" | "2 ^ 62 \<le> N"
    by linarith
  then show ?thesis
  proof cases
    case 1
    with assms(1) round_double_units [of 0 N] show ?thesis
      by (simp add: round_units_def round_to_multiple_def)
  next
    case 2
    with round_double_units [of 1 N] show ?thesis by (simp add: round_units_def)
  next
    case 3
    with round_double_units [of 2 N] show ?thesis by (simp add: round_units_def)
  next
    case 4
    with round_double_units [of 3 N] show ?thesis by (simp add: round_units_def)
  next
    case 5
    with round_double_units [of 4 N] show ?thesis by (simp add: round_units_def)
  next
    case 6
    with round_double_units [of 5 N] show ?thesis by (simp add: round_units_def)
  next
    case 7
    with round_double_units [of 6 N] show ?thesis by (simp add: round_units_def)
  next
    case 8
    with round_double_units [of 7 N] show ?thesis by (simp add: round_units_def)
  next
    case 9
    with round_double_units [of 8 N] show ?thesis by (simp add: round_units_def)
  next
    case 10
    with round_double_units [of 9 N] show ?thesis by (simp add: round_units_def)
  next
    case 11
    with assms(2) round_double_units [of 10 N] show ?thesis by (simp add: round_units_def)
  qed
qed

lemma two_pi_units: "round_double (MATH_PI * 2) = of_int 7244019458077122560 / 2 ^ 60"
  unfolding two_pi_double by simp

lemma fiber_run_sound:
  assumes "fiber_run fuel S T = Some r"
  shows "\<exists>us. fiber_loop (of_int S / 2 ^ 60) (of_int T / 2 ^ 60) ts = Some (ts @ us)
    \<and> length us + r + 1 = fuel
    \<and> (us \<noteq> [] \<longrightarrow> hd us = of_int T / 2 ^ 60)
    \<and> (\<forall>u \<in> set us. u \<le> round_double (MATH_PI * 2))"
  using assms
proof (induction fuel arbitrary: T ts)
  case 0
  then show ?case by simp
next
  case (Suc fuel)
  have cmp: "real_of_int T / 2 ^ 60 \<le> round_double (MATH_PI * 2) \<longleftrightarrow> T \<le> 7244019458077122560"
    unfolding two_pi_units by (simp add: divide_le_cancel)
  show ?case
  proof (cases "T \<le> 7244019458077122560")
    case True
    with Suc.prems have range: "4503599627370496 \<le> T + S" "T + S < 9223372036854775808"
      and run: "fiber_run fuel S (round_units (T + S)) = Some r"
      by (simp_all split: if_splits)
    have "round_double (of_int T / 2 ^ 60 + of_int S / 2 ^ 60)
        = round_double (of_int (T + S) / 2 ^ 60)"
      by (simp add: add_divide_distrib)
    also have "\<dots> = of_int (round_units (T + S)) / 2 ^ 60"
      using range by (rule round_units_correct)
    finally have next_t: "round_double (of_int T / 2 ^ 60 + of_int S / 2 ^ 60)
        = of_int (round_units (T + S)) / 2 ^ 60" .
    from Suc.IH [OF run, of "ts @ [of_int T / 2 ^ 60]"]
    obtain us where us: "fiber_loop (of_int S / 2 ^ 60) (of_int (round_units (T + S)) / 2 ^ 60)
          (ts @ [of_int T / 2 ^ 60]) = Some ((ts @ [of_int T / 2 ^ 60]) @ us)"
      and len: "length us + r + 1 = fuel"
      and below: "\<forall>u \<in> set us. u \<le> round_double (MATH_PI * 2)"
      by blast
    have "fiber_loop (of_int S / 2 ^ 60) (of_int T / 2 ^ 60) ts
        = fiber_loop (of_int S / 2 ^ 60)
            (round_double (of_int T / 2 ^ 60 + of_int S / 2 ^ 60)) (ts @ [of_int T / 2 ^ 60])"
      using True by (subst fiber_loop.simps) (simp only: cmp if_True)
    also have "\<dots> = Some ((ts @ [of_int T / 2 ^ 60]) @ us)"
      unfolding next_t by (rule us)
    finally have "fiber_loop (of_int S / 2 ^ 60) (of_int T / 2 ^ 60) ts
        = Some (ts @ (of_int T / 2 ^ 60) # us)"
      by simp
    moreover have "real_of_int T / 2 ^ 60 \<le> round_double (MATH_PI * 2)"
      using True by (simp only: cmp)
    ultimately show ?thesis
      using len below by (intro exI [of _ "(of_int T / 2 ^ 60) # us"]) simp
  next
    case False
    with Suc.prems have "r = fuel"
      by simp
    moreover have "fiber_loop (of_int S / 2 ^ 60) (of_int T / 2 ^ 60) ts = Some ts"
      using False by (subst fiber_loop.simps) (simp only: cmp if_False)
    ultimately show ?thesis
      by simp
  qed
qed

lemma fiber_run_numeral:
  "fiber_run (numeral n) S T =
     (if T \<le> 7244019458077122560
      then (if 4503599627370496 \<le> T + S \<and> T + S < 9223372036854775808
            then fiber_run (pred_numeral n) S (round_units (T + S)) else None)
      else Some (pred_numeral n))"
  by (simp add: numeral_eq_Suc)

lemma fiber_run_1000: "fiber_run 1003 7244019458077123 0 = Some 1"
  by (simp add: fiber_run_numeral round_units_def round_to_multiple_def Let_def
      del: fiber_run.simps)

text \<open>
  With the default of 1000 segments the loop ends after 1001 iterations; the first
  parameter is 0 and none exceeds the double \<open>2 * Math.PI\<close>.
\<close>

lemma fiber_params_1000_shape:
  "\<exists>ts. fiber_params 1000 = Some ts \<and> length ts = 1001 \<and> hd ts = 0 \<and>
     (\<forall>t \<in> set ts. t \<le> round_double (MATH_PI * 2))"
proof -
  from fiber_run_sound [OF fiber_run_1000, of "[]"]
  obtain us where "fiber_loop (of_int 7244019458077123 / 2 ^ 60) (of_int 0 / 2 ^ 60) [] = Some us"
    and "length us = 1001" and "us \<noteq> [] \<longrightarrow> hd us = of_int 0 / 2 ^ 60"
    and "\<forall>u \<in> set us. u \<le> round_double (MATH_PI * 2)"
    by auto
  moreover have "fiber_params 1000
      = fiber_loop (round_double (round_double (2 * MATH_PI) / real 1000)) 0 []"
    by (rule fiber_params_positive) simp
  ultimately show ?thesis
    unfolding step_1000 by auto
qed

lemma fiber_params_1000: "\<exists>ts. fiber_params 1000 = Some ts \<and> length ts = 1001"
  using fiber_params_1000_shape by blast


section \<open>The points of a fiber\<close>



lemma unit_vector_z: "unit_vector n \<Longrightarrow> \<bar>vec_z n\<bar> \<le> 1"
proof -
  assume "unit_vector n"
  then have "vec_z n * vec_z n = 1 - (vec_x n * vec_x n + vec_y n * vec_y n)"
    by (simp add: unit_vector_def)
  moreover have "0 \<le> vec_x n * vec_x n + vec_y n * vec_y n"
    by simp
  ultimately have "(vec_z n)\<^sup>2 \<le> 1"
    by (simp add: power2_eq_square)
  then show ?thesis
    by (simp add: abs_square_le_1)
qed

lemma fiber_vertex_spec: "\<bar>vec_z n\<bar> \<le> 1 \<Longrightarrow> fiber_vertex n t = Some (spec_fiber_point n t)"
  by (simp add: fiber_vertex_def spec_fiber_point_def spec_divisor_def spec_4d_def Let_def)

lemma spec_divisor_ge: "1 / 10000 \<le> spec_divisor n t"
  by (simp add: spec_divisor_def spec_4d_def Let_def)

lemma clamped_quotient:
  assumes "\<bar>a\<bar> \<le> 1" "1 / 10000 \<le> d"
  shows "\<bar>a / d\<bar> \<le> (10000::real)"
proof -
  have d: "0 < d"
    using assms(2) by simp
  have "\<bar>a / d\<bar> = \<bar>a\<bar> / d"
    using d by simp
  also have "\<dots> \<le> 1 / d"
    using assms(1) d by (simp add: divide_right_mono)
  also have "\<dots> \<le> 10000"
    using assms(2) d by (simp add: field_simps)
  finally show ?thesis .
qed

lemma product_le_one: "\<bar>a\<bar> \<le> 1 \<Longrightarrow> \<bar>b\<bar> \<le> 1 \<Longrightarrow> \<bar>a * b\<bar> \<le> (1::real)"
  by (simp add: abs_mult mult_le_one)

lemma spec_fiber_point_bounded:
  "\<bar>vec_x (spec_fiber_point n t)\<bar> \<le> 10000 \<and>
   \<bar>vec_y (spec_fiber_point n t)\<bar> \<le> 10000 \<and>
   \<bar>vec_z (spec_fiber_point n t)\<bar> \<le> 10000"
proof -
  obtain x4 y4 z4 w4 where q: "spec_4d n t = (x4, y4, z4, w4)"
    by (cases "spec_4d n t")
  then have x4: "\<bar>x4\<bar> \<le> 1" and y4: "\<bar>y4\<bar> \<le> 1" and z4: "\<bar>z4\<bar> \<le> 1"
    by (auto simp: spec_4d_def Let_def product_le_one)
  have d: "1 / 10000 \<le> spec_divisor n t"
    by (rule spec_divisor_ge)
  show ?thesis
    unfolding spec_fiber_point_def q
    using clamped_quotient [OF x4 d] clamped_quotient [OF y4 d] clamped_quotient [OF z4 d]
    by simp
qed

text \<open>
  Claim C3. For a unit vector \<open>n\<close>, every point the generator returns is a finite vector:
  the list of returned points is the list of the loop's parameters \<open>t\<close>, each mapped to
  \<open>(x4 / d, y4 / d, z4 / d)\<close> as the specification computes it. The divisor \<open>d\<close> is at least
  0.0001 at every parameter, hence not zero, and every coordinate lies between -10000
  and 10000.
\<close>

theorem fiber_points_projected_and_finite:
  assumes "unit_vector n" and "getHopfFiberPoints n segments = Some points"
  shows "(\<exists>ts. fiber_params segments = Some ts \<and>
            points = map (\<lambda>t. Some (spec_fiber_point n t)) ts) \<and>
         (\<forall>t. 1 / 10000 \<le> spec_divisor n t \<and>
              \<bar>vec_x (spec_fiber_point n t)\<bar> \<le> 10000 \<and>
              \<bar>vec_y (spec_fiber_point n t)\<bar> \<le> 10000 \<and>
              \<bar>vec_z (spec_fiber_point n t)\<bar> \<le> 10000)"
proof -
  from assms(2) obtain ts where ts: "fiber_params segments = Some ts"
    and points: "points = map (fiber_vertex n) ts"
    by (auto simp: getHopfFiberPoints_def)
  have "fiber_vertex n = (\<lambda>t. Some (spec_fiber_point n t))"
    using unit_vector_z [OF assms(1)] by (simp add: fun_eq_iff fiber_vertex_spec)
  with ts points show ?thesis
    using spec_divisor_ge spec_fiber_point_bounded by auto
qed

theorem fiber_points_projected_and_finite_witness:
  "unit_vector (Vector3 0 0 (- 1)) \<and>
   getHopfFiberPoints (Vector3 0 0 (- 1)) 12
     = Some (map (\<lambda>t. Some (spec_fiber_point (Vector3 0 0 (- 1)) t)) params_12) \<and>
   spec_divisor (Vector3 0 0 (- 1)) (pi / 2) = 1 / 10000 \<and>
   spec_fiber_point (Vector3 0 0 (- 1)) (pi / 2) = Vector3 0 0 0 \<and>
   spec_fiber_point (Vector3 0 0 (- 1)) 0 = Vector3 0 0 1"
proof -
  have u: "unit_vector (Vector3 0 0 (- 1))"
    by (simp add: unit_vector_def)
  have g: "getHopfFiberPoints (Vector3 0 0 (- 1)) 12
      = Some (map (fiber_vertex (Vector3 0 0 (- 1))) params_12)"
    by (simp add: getHopfFiberPoints_def fiber_params_12 length_params_12)
  from fiber_points_projected_and_finite [OF u g]
  have "map (fiber_vertex (Vector3 0 0 (- 1))) params_12
      = map (\<lambda>t. Some (spec_fiber_point (Vector3 0 0 (- 1)) t)) params_12"
    by (simp add: fiber_params_12)
  with u g show ?thesis
    by (simp add: spec_divisor_def spec_fiber_point_def spec_4d_def atan2_def Let_def)
qed

section \<open>The state machines\<close>

lemma hopf_click_frozen: "holdScene s \<Longrightarrow> hopf_click event s = Some s"
  by (simp add: hopf_click_def)

lemma stereo_click_frozen: "isFrozen s \<Longrightarrow> stereo_click event s = s"
  by (simp add: stereo_click_def)

text \<open>
  Claim C5. While the frozen flag of a tool is set, a click changes nothing: the handler
  returns the state it was given, so no artifact is added and the groups, the colour
  index and the mode flags are as before, whatever the mode and wherever the click lands.
\<close>

theorem frozen_click_changes_nothing:
  "(holdScene hs \<longrightarrow> hopf_click event hs = Some hs) \<and>
   (isFrozen ss \<longrightarrow> stereo_click event' ss = ss)"
  by (simp add: hopf_click_frozen stereo_click_frozen)

theorem frozen_click_changes_nothing_witness:
  "holdScene (hopf_initial\<lparr>holdScene := True, longitudeMode := True\<rparr>) \<and>
   hopf_click (click_at (Vector3 1 0 0)) (hopf_initial\<lparr>holdScene := True, longitudeMode := True\<rparr>)
     = Some (hopf_initial\<lparr>holdScene := True, longitudeMode := True\<rparr>) \<and>
   isFrozen (stereo_initial\<lparr>isFrozen := True, togglePoint := True\<rparr>) \<and>
   stereo_click (click_at (Vector3 1 1 0)) (stereo_initial\<lparr>isFrozen := True, togglePoint := True\<rparr>)
     = stereo_initial\<lparr>isFrozen := True, togglePoint := True\<rparr>"
  using frozen_click_changes_nothing
    [of "hopf_initial\<lparr>holdScene := True, longitudeMode := True\<rparr>" "click_at (Vector3 1 0 0)"
        "stereo_initial\<lparr>isFrozen := True, togglePoint := True\<rparr>" "click_at (Vector3 1 1 0)"]
  by (simp add: hopf_initial_def stereo_initial_def)

text \<open>
  Claim C1, as amended. In the Hopf tool, Reset empties the four groups, unchecks the three
  checkboxes, clears the three mode flags and the lock, and sets the colour index to 0.
  In the stereographic tool, Reset empties the group, hides the warning and unchecks the
  three checkboxes; it leaves the frozen flag as it was (and that tool has no colour index).
\<close>

theorem reset_effect:
  "hopf_artifacts (hopf_reset_click hs) = [] \<and>
   \<not> pointToggle (hopf_reset_click hs) \<and>
   \<not> longitudeToggle (hopf_reset_click hs) \<and>
   \<not> latitudeToggle (hopf_reset_click hs) \<and>
   \<not> selectionMode (hopf_reset_click hs) \<and>
   \<not> longitudeMode (hopf_reset_click hs) \<and>
   \<not> latitudeMode (hopf_reset_click hs) \<and>
   \<not> holdScene (hopf_reset_click hs) \<and>
   fiberIndex (hopf_reset_click hs) = 0 \<and>
   projectGroup (stereo_reset_click ss) = [] \<and>
   \<not> warning (stereo_reset_click ss) \<and>
   \<not> togglePoint (stereo_reset_click ss) \<and>
   \<not> toggleLongitude (stereo_reset_click ss) \<and>
   \<not> toggleLatitude (stereo_reset_click ss) \<and>
   isFrozen (stereo_reset_click ss) = isFrozen ss"
  by (simp add: hopf_reset_click_def clearPreviousSelections_def hopf_artifacts_def
      stereo_reset_click_def resetExhibition_def)

text \<open>
  Claim C1 as stated fails in the stereographic tool: Reset on a frozen state leaves it
  frozen.
\<close>

theorem stereo_reset_stays_frozen:
  "isFrozen (stereo_reset_click (stereo_initial\<lparr>isFrozen := True, toggleLongitude := True\<rparr>))"
  by (simp add: stereo_reset_click_def resetExhibition_def stereo_initial_def)

lemma hopf_toggle_activate:
  assumes "\<not> hopf_checked t s"
  shows "hopf_user_toggles t s =
    (clearPreviousSelections s)
      \<lparr>pointToggle := (t = PointBox), longitudeToggle := (t = LongitudeBox),
       latitudeToggle := (t = LatitudeBox), selectionMode := (t = PointBox),
       longitudeMode := (t = LongitudeBox), latitudeMode := (t = LatitudeBox)\<rparr>"
  using assms
  by (cases t) (simp_all add: hopf_user_toggles_def hopf_toggle_change_def
      clearPreviousSelections_def)

lemma hopf_toggle_deactivate:
  assumes "hopf_checked t s"
  shows "hopf_user_toggles t s =
    (let s1 = clearPreviousSelections (hopf_set_checked t False s)
     in s1\<lparr>selectionMode := pointToggle s1, longitudeMode := longitudeToggle s1,
           latitudeMode := latitudeToggle s1\<rparr>)"
  using assms
  by (cases t) (simp_all add: hopf_user_toggles_def hopf_toggle_change_def
      clearPreviousSelections_def)

lemma stereo_toggle_activate:
  assumes "\<not> stereo_checked t s"
  shows "stereo_user_toggles t s =
    s\<lparr>togglePoint := (t = PointBox), toggleLongitude := (t = LongitudeBox),
      toggleLatitude := (t = LatitudeBox), projectGroup := [], warning := False\<rparr>"
  using assms
  by (cases t) (simp_all add: stereo_user_toggles_def stereo_toggle_change_def)

lemma stereo_toggle_deactivate:
  assumes "stereo_checked t s"
  shows "stereo_user_toggles t s = stereo_set_checked t False s"
  using assms
  by (cases t) (simp_all add: stereo_user_toggles_def stereo_toggle_change_def)

lemma hopf_toggle_at_most_one:
  assumes "at_most_one (pointToggle s) (longitudeToggle s) (latitudeToggle s)"
  shows "at_most_one (pointToggle (hopf_user_toggles t s))
           (longitudeToggle (hopf_user_toggles t s)) (latitudeToggle (hopf_user_toggles t s))"
proof (cases "hopf_checked t s")
  case True
  with assms show ?thesis
    by (cases t) (simp_all add: hopf_toggle_deactivate clearPreviousSelections_def
        at_most_one_def Let_def)
next
  case False
  then show ?thesis
    by (cases t) (simp_all add: hopf_toggle_activate clearPreviousSelections_def
        at_most_one_def)
qed

lemma stereo_toggle_at_most_one:
  assumes "at_most_one (togglePoint s) (toggleLongitude s) (toggleLatitude s)"
  shows "at_most_one (togglePoint (stereo_user_toggles t s))
           (toggleLongitude (stereo_user_toggles t s)) (toggleLatitude (stereo_user_toggles t s))"
proof (cases "stereo_checked t s")
  case True
  with assms show ?thesis
    by (cases t) (simp_all add: stereo_toggle_deactivate at_most_one_def)
next
  case False
  then show ?thesis
    by (cases t) (simp_all add: stereo_toggle_activate at_most_one_def)
qed

lemma hopf_toggle_flags:
  "selectionMode (hopf_user_toggles t s) = pointToggle (hopf_user_toggles t s) \<and>
   longitudeMode (hopf_user_toggles t s) = longitudeToggle (hopf_user_toggles t s) \<and>
   latitudeMode (hopf_user_toggles t s) = latitudeToggle (hopf_user_toggles t s)"
  by (simp add: hopf_user_toggles_def hopf_toggle_change_def Let_def)

section \<open>The pole guard of the stereographic tool\<close>

lemma stereo_click_accepted:
  assumes "\<not> isFrozen s" "target_is_canvas event" "intersects event = p # rest"
    and "\<not> distanceTo_double p northPolePos < DOUBLE_0_08"
  shows "stereo_click event s =
    (let s0 = s\<lparr>warning := False, projectGroup := []\<rparr>;
         s1 = (if togglePoint s0 then stereo_point_selection p s0 else s0);
         s2 = (if toggleLatitude s1 then stereo_latitude_selection p s1 else s1)
     in if toggleLongitude s2 then stereo_longitude_selection p s2 else s2)"
  using assms by (simp add: stereo_click_def)

lemma stereo_click_warns:
  assumes "\<not> isFrozen s" "target_is_canvas event" "intersects event = p # rest"
    and "distanceTo_double p northPolePos < DOUBLE_0_08"
  shows "stereo_click event s = s\<lparr>warning := True\<rparr>"
  using assms by (simp add: stereo_click_def)

text \<open>The literal \<open>0.08\<close> denotes the double nearest to eight hundredths, a little above it.\<close>

lemma double_literal_0_08: "round_double (8 / 100) = DOUBLE_0_08 \<and> 8 / 100 < DOUBLE_0_08"
  by (simp add: round_double_m4 round_half_even_def DOUBLE_0_08_def)

text \<open>The computed distance from the north pole of the pole itself and of the south pole.\<close>

lemma double_distance_north_pole: "distanceTo_double northPolePos northPolePos = 0"
  by (simp add: distanceTo_double_def northPolePos_def round_double_def)

lemma double_distance_south_pole: "distanceTo_double (Vector3 0 0 0) northPolePos = 2"
proof -
  have pole: "northPolePos = Vector3 0 2 0"
    by (simp add: northPolePos_def radius_def)
  have zero: "round_double 0 = 0"
    by (simp add: round_double_def)
  have two: "round_double (- 2) = - 2"
    by (simp add: round_double_minus round_double_1 round_half_even_def)
  have four: "round_double 4 = 4"
    by (simp add: round_double_2 round_half_even_def)
  have root: "round_double 2 = 2"
    by (simp add: round_double_1 round_half_even_def)
  show ?thesis
    by (simp add: distanceTo_double_def pole zero two four root)
qed

text \<open>
  The computed distance of \<open>near_rim_point\<close> from the north pole is the double \<open>0.08\<close>
  itself: the sum of the rounded squares is \<open>7378697629483821 / 2 ^ 60\<close>, and its square
  root lies between the two midpoints around \<open>DOUBLE_0_08\<close>.
\<close>

lemma sqrt_rounds_to_0_08:
  "round_double (sqrt (7378697629483821 / 1152921504606846976)) = DOUBLE_0_08"
proof -
  define s :: real where "s = 7378697629483821 / 1152921504606846976"
  have lo: "2 powi (- 4) \<le> sqrt s"
    by (rule real_le_rsqrt) (simp add: s_def power_int_minus power2_eq_square)
  have hi: "sqrt s < 2 powi (- 4 + 1)"
    by (rule real_less_lsqrt) (simp_all add: s_def power_int_minus power2_eq_square)
  have below: "(of_int 5764607523034235 - 1 / 2) * 2 powi (- 4 - 52) < sqrt s"
    by (rule real_less_rsqrt) (simp add: s_def power_int_minus power2_eq_square)
  have above: "sqrt s < (of_int 5764607523034235 + 1 / 2) * 2 powi (- 4 - 52)"
    by (rule real_less_lsqrt) (simp_all add: s_def power_int_minus power2_eq_square)
  have "round_double (sqrt s) = of_int 5764607523034235 * 2 powi (- 4 - 52)"
    using lo hi _ below above by (rule round_double_near) simp
  then show ?thesis
    by (simp add: s_def DOUBLE_0_08_def power_int_minus)
qed

lemma near_rim_distance_double: "distanceTo_double near_rim_point northPolePos = DOUBLE_0_08"
proof -
  have pole: "northPolePos = Vector3 0 2 0"
    by (simp add: northPolePos_def radius_def)
  have dx: "round_double (719999248858023 / 9007199254740992 - 0) = 719999248858023 / 9007199254740992"
    by (simp add: round_double_m4 round_half_even_def)
  have dy: "round_double (281024616747919 / 140737488355328 - 2) = - (450359962737 / 140737488355328)"
    by (simp add: round_double_minus round_double_m9 round_half_even_def)
  have dz: "round_double (0 - 0) = 0"
    by (simp add: round_double_def)
  have xx: "round_double (719999248858023 / 9007199254740992 * (719999248858023 / 9007199254740992))
      = 7366891713276649 / 1152921504606846976"
    by (simp add: round_double_m8 round_half_even_def)
  have yy: "round_double (- (450359962737 / 140737488355328) * - (450359962737 / 140737488355328))
      = 3022314549035907 / 295147905179352825856"
    by (simp add: round_double_m17 round_half_even_def)
  have zz: "round_double (0 * 0) = 0"
    by (simp add: round_double_def)
  have xy: "round_double (7366891713276649 / 1152921504606846976
      + 3022314549035907 / 295147905179352825856) = 7378697629483821 / 1152921504606846976"
    by (simp add: round_double_m8 round_half_even_def)
  have xyz: "round_double (7378697629483821 / 1152921504606846976 + 0)
      = 7378697629483821 / 1152921504606846976"
    by (simp add: round_double_m8 round_half_even_def)
  show ?thesis
    unfolding distanceTo_double_def near_rim_point_def pole Let_def Vector3.sel
      dx dy dz xx yy zz xy xyz sqrt_rounds_to_0_08 ..
qed

text \<open>
  The error of the computed distance. The square of a rounded difference, rounded, is
  within \<open>5 / 10 ^ 15\<close> of the exact square, and the rounded sum of the three within
  \<open>9 / 10 ^ 15\<close> of the exact sum, up to \<open>16 / 10 ^ 30\<close> for the subnormals.
\<close>

lemma square_error:
  fixes d x :: real
  assumes "\<bar>d - x\<bar> \<le> \<bar>x\<bar> / 10 ^ 15 + 1 / 10 ^ 30"
  shows "\<bar>d * d - x * x\<bar> \<le> 3 / 10 ^ 15 * (x * x) + 2 / 10 ^ 30"
proof -
  define t where "t = \<bar>x\<bar>"
  have t: "0 \<le> t" and tt: "t * t = x * x"
    by (simp_all add: t_def)
  have "0 \<le> (t - 1) * (t - 1)"
    by simp
  then have t2: "2 * t \<le> t * t + 1"
    by (simp add: algebra_simps)
  have a: "\<bar>d - x\<bar> \<le> t / 10 ^ 15 + 1 / 10 ^ 30"
    using assms by (simp add: t_def)
  have b: "\<bar>d + x\<bar> \<le> 2 * t + (t / 10 ^ 15 + 1 / 10 ^ 30)"
    using a unfolding t_def by linarith
  have "d * d - x * x = (d - x) * (d + x)"
    by (simp add: algebra_simps)
  then have "\<bar>d * d - x * x\<bar> = \<bar>d - x\<bar> * \<bar>d + x\<bar>"
    by (simp add: abs_mult)
  also have "\<dots> \<le> (t / 10 ^ 15 + 1 / 10 ^ 30) * (2 * t + (t / 10 ^ 15 + 1 / 10 ^ 30))"
    using a b t by (intro mult_mono) simp_all
  also have "\<dots> = (2 / 10 ^ 15 + 1 / 10 ^ 30) * (t * t)
      + (1 / 10 ^ 30 + 1 / 10 ^ 45) * (2 * t) + 1 / 10 ^ 60"
    by (simp add: algebra_simps)
  also have "\<dots> \<le> (2 / 10 ^ 15 + 1 / 10 ^ 30) * (t * t)
      + (1 / 10 ^ 30 + 1 / 10 ^ 45) * (t * t + 1) + 1 / 10 ^ 60"
    using t2 by simp
  also have "\<dots> \<le> 3 / 10 ^ 15 * (t * t) + 2 / 10 ^ 30"
  proof -
    define s where "s = t * t"
    have "0 \<le> s"
      using t by (simp add: s_def)
    then have "(2 / 10 ^ 15 + 1 / 10 ^ 30) * s + (1 / 10 ^ 30 + 1 / 10 ^ 45) * (s + 1)
        + 1 / 10 ^ 60 \<le> 3 / 10 ^ 15 * s + 2 / 10 ^ 30"
      by (simp add: field_simps)
    then show ?thesis
      by (simp only: s_def)
  qed
  finally show ?thesis
    by (simp only: tt)
qed

lemma rounded_square_error:
  "\<bar>round_double (round_double x * round_double x) - x * x\<bar>
     \<le> 5 / 10 ^ 15 * (x * x) + 4 / 10 ^ 30"
proof -
  define d where "d = round_double x"
  have sq: "\<bar>d * d - x * x\<bar> \<le> 3 / 10 ^ 15 * (x * x) + 2 / 10 ^ 30"
    unfolding d_def by (rule square_error) (rule round_double_close)
  have p: "0 \<le> x * x" and q: "0 \<le> d * d"
    by simp_all
  have "\<bar>round_double (d * d) - d * d\<bar> \<le> \<bar>d * d\<bar> / 10 ^ 15 + 1 / 10 ^ 30"
    by (rule round_double_close)
  with sq p q have "\<bar>round_double (d * d) - x * x\<bar> \<le> 5 / 10 ^ 15 * (x * x) + 4 / 10 ^ 30"
    by simp
  then show ?thesis
    by (simp only: d_def)
qed

lemma sum_of_squares_error:
  "\<bar>round_double (round_double (round_double (round_double x * round_double x)
        + round_double (round_double y * round_double y))
        + round_double (round_double z * round_double z))
      - (x * x + y * y + z * z)\<bar>
   \<le> 9 / 10 ^ 15 * (x * x + y * y + z * z) + 16 / 10 ^ 30"
proof -
  define P Q R where "P = x * x" and "Q = y * y" and "R = z * z"
  define A B C where "A = round_double (round_double x * round_double x)"
    and "B = round_double (round_double y * round_double y)"
    and "C = round_double (round_double z * round_double z)"
  have pos: "0 \<le> P" "0 \<le> Q" "0 \<le> R"
    by (simp_all add: P_def Q_def R_def)
  have a: "\<bar>A - P\<bar> \<le> 5 / 10 ^ 15 * P + 4 / 10 ^ 30"
    and b: "\<bar>B - Q\<bar> \<le> 5 / 10 ^ 15 * Q + 4 / 10 ^ 30"
    and c: "\<bar>C - R\<bar> \<le> 5 / 10 ^ 15 * R + 4 / 10 ^ 30"
    unfolding A_def B_def C_def P_def Q_def R_def by (rule rounded_square_error)+
  have s1: "\<bar>round_double (A + B) - (A + B)\<bar> \<le> \<bar>A + B\<bar> / 10 ^ 15 + 1 / 10 ^ 30"
    by (rule round_double_close)
  have s1': "\<bar>round_double (A + B) - (P + Q)\<bar> \<le> 7 / 10 ^ 15 * (P + Q) + 10 / 10 ^ 30"
    using pos a b s1 by simp argo
  have s2: "\<bar>round_double (round_double (A + B) + C) - (round_double (A + B) + C)\<bar>
      \<le> \<bar>round_double (A + B) + C\<bar> / 10 ^ 15 + 1 / 10 ^ 30"
    by (rule round_double_close)
  have "\<bar>round_double (round_double (A + B) + C) - (P + Q + R)\<bar>
      \<le> 9 / 10 ^ 15 * (P + Q + R) + 16 / 10 ^ 30"
    using pos c s1' s2 by simp argo
  then show ?thesis
    by (simp only: A_def B_def C_def P_def Q_def R_def)
qed

lemma sum_of_squares_nonneg:
  "0 \<le> round_double (round_double (round_double (round_double x * round_double x)
        + round_double (round_double y * round_double y))
        + round_double (round_double z * round_double z))"
  by (intro round_double_nonneg add_nonneg_nonneg) simp_all

text \<open>
  Away from the threshold the computed test agrees with the exact one: a point nearer
  than \<open>0.08 - 1 / 10 ^ 12\<close> to another has a computed distance below the double \<open>0.08\<close>, and
  a point farther than \<open>0.08 + 1 / 10 ^ 12\<close> has not.
\<close>

lemma near_in_doubles:
  assumes "distanceTo a b \<le> 8 / 100 - 1 / 10 ^ 12"
  shows "distanceTo_double a b < DOUBLE_0_08"
proof -
  define x y z where "x = vec_x a - vec_x b" and "y = vec_y a - vec_y b"
    and "z = vec_z a - vec_z b"
  define S where "S = x * x + y * y + z * z"
  define s where "s = round_double (round_double (round_double (round_double x * round_double x)
        + round_double (round_double y * round_double y))
        + round_double (round_double z * round_double z))"
  have S0: "0 \<le> S"
    by (simp add: S_def)
  have s0: "0 \<le> s"
    unfolding s_def by (rule sum_of_squares_nonneg)
  have "sqrt S \<le> 8 / 100 - 1 / 10 ^ 12"
    using assms by (simp add: distanceTo_def vec_length_def subVectors_def S_def x_def y_def
        z_def)
  then have "(sqrt S)\<^sup>2 \<le> (8 / 100 - 1 / 10 ^ 12)\<^sup>2"
    using S0 by (intro power_mono) simp_all
  then have S: "S \<le> (8 / 100 - 1 / 10 ^ 12)\<^sup>2"
    using S0 by simp
  have "\<bar>s - S\<bar> \<le> 9 / 10 ^ 15 * S + 16 / 10 ^ 30"
    unfolding s_def S_def by (rule sum_of_squares_error)
  with S S0 have "s \<le> (8 / 100 - 1 / 10 ^ 13)\<^sup>2"
    by (simp add: power2_eq_square)
  then have root: "sqrt s \<le> 8 / 100 - 1 / 10 ^ 13"
    by (intro real_le_lsqrt) simp_all
  have r0: "0 \<le> sqrt s"
    using s0 by simp
  have "\<bar>round_double (sqrt s) - sqrt s\<bar> \<le> \<bar>sqrt s\<bar> / 10 ^ 15 + 1 / 10 ^ 30"
    by (rule round_double_close)
  with root r0 have "round_double (sqrt s) < DOUBLE_0_08"
    by (simp add: DOUBLE_0_08_def)
  then show ?thesis
    unfolding distanceTo_double_def Let_def s_def x_def y_def z_def .
qed

lemma far_in_doubles:
  assumes "8 / 100 + 1 / 10 ^ 12 \<le> distanceTo a b"
  shows "\<not> distanceTo_double a b < DOUBLE_0_08"
proof -
  define x y z where "x = vec_x a - vec_x b" and "y = vec_y a - vec_y b"
    and "z = vec_z a - vec_z b"
  define S where "S = x * x + y * y + z * z"
  define s where "s = round_double (round_double (round_double (round_double x * round_double x)
        + round_double (round_double y * round_double y))
        + round_double (round_double z * round_double z))"
  have S0: "0 \<le> S"
    by (simp add: S_def)
  have "8 / 100 + 1 / 10 ^ 12 \<le> sqrt S"
    using assms by (simp add: distanceTo_def vec_length_def subVectors_def S_def x_def y_def
        z_def)
  then have "(8 / 100 + 1 / 10 ^ 12)\<^sup>2 \<le> (sqrt S)\<^sup>2"
    by (intro power_mono) simp_all
  then have S: "(8 / 100 + 1 / 10 ^ 12)\<^sup>2 \<le> S"
    using S0 by simp
  have "\<bar>s - S\<bar> \<le> 9 / 10 ^ 15 * S + 16 / 10 ^ 30"
    unfolding s_def S_def by (rule sum_of_squares_error)
  with S S0 have "(8 / 100 + 1 / 10 ^ 13)\<^sup>2 \<le> s"
    by (simp add: power2_eq_square)
  then have root: "8 / 100 + 1 / 10 ^ 13 \<le> sqrt s"
    by (rule real_le_rsqrt)
  have "\<bar>round_double (sqrt s) - sqrt s\<bar> \<le> \<bar>sqrt s\<bar> / 10 ^ 15 + 1 / 10 ^ 30"
    by (rule round_double_close)
  with root have "\<not> round_double (sqrt s) < DOUBLE_0_08"
    by (simp add: DOUBLE_0_08_def)
  then show ?thesis
    unfolding distanceTo_double_def Let_def s_def x_def y_def z_def .
qed

lemma near_rim_within: "distanceTo near_rim_point northPolePos < 8 / 100"
proof -
  have "sqrt (719999248858023 / 9007199254740992 * (719999248858023 / 9007199254740992)
      + (281024616747919 / 140737488355328 - 2) * (281024616747919 / 140737488355328 - 2))
      < 8 / 100"
    by (rule real_less_lsqrt) (simp_all add: power2_eq_square)
  then show ?thesis
    by (simp add: distanceTo_def vec_length_def subVectors_def northPolePos_def radius_def
        near_rim_point_def)
qed

lemma near_rim_on_sphere:
  "1 \<le> distanceTo near_rim_point spherePos \<and>
   distanceTo near_rim_point spherePos < 1 + 1 / 10 ^ 15"
proof -
  define q :: real where
    "q = 719999248858023 / 9007199254740992 * (719999248858023 / 9007199254740992)
       + (281024616747919 / 140737488355328 - 1) * (281024616747919 / 140737488355328 - 1)"
  have "1 \<le> sqrt q"
    by (rule real_le_rsqrt) (simp add: q_def)
  moreover have "sqrt q < 1 + 1 / 10 ^ 15"
    by (rule real_less_lsqrt) (simp_all add: q_def power2_eq_square)
  moreover have "distanceTo near_rim_point spherePos = sqrt q"
    by (simp add: distanceTo_def vec_length_def subVectors_def spherePos_def radius_def
        near_rim_point_def q_def)
  ultimately show ?thesis
    by simp
qed

lemma near_rim_coordinates:
  "round_double (vec_x near_rim_point) = vec_x near_rim_point \<and>
   round_double (vec_y near_rim_point) = vec_y near_rim_point \<and>
   round_double (vec_z near_rim_point) = vec_z near_rim_point"
  by (simp add: near_rim_point_def round_double_m4 round_double_0 round_half_even_def
      round_double_def [of 0])

lemma near_rim_projection:
  "projectPoint near_rim_point = Some (Vector3 (239999749619341 / 4803839602528) 0 0)"
  by (simp add: projectPoint_def subVectors_def northPolePos_def radius_def near_rim_point_def
      Let_def)

text \<open>
  Claim C6, as amended. A click on the canvas of the unfrozen stereographic tool that meets
  the sphere at a point whose distance from the north pole, as the tool computes it in
  double arithmetic, is less than the double \<open>0.08\<close> only displays the warning: the group
  is as before, nothing is cleared and nothing is projected or drawn. This is so in
  particular for every point whose exact distance from the pole is at most
  \<open>0.08 - 1 / 10 ^ 12\<close>.
\<close>

theorem pole_guard_warns:
  assumes "\<not> isFrozen s" and "target_is_canvas event" and "intersects event = p # rest"
    and "distanceTo_double p northPolePos < DOUBLE_0_08 \<or>
         distanceTo p northPolePos \<le> 8 / 100 - 1 / 10 ^ 12"
  shows "stereo_click event s = s\<lparr>warning := True\<rparr>"
proof -
  from assms(4) have "distanceTo_double p northPolePos < DOUBLE_0_08"
    using near_in_doubles [of p northPolePos] by blast
  with assms(1-3) show ?thesis
    by (rule stereo_click_warns)
qed

theorem pole_guard_warns_witness:
  "\<not> isFrozen (stereo_initial\<lparr>togglePoint := True\<rparr>) \<and>
   target_is_canvas (click_at northPolePos) \<and>
   intersects (click_at northPolePos) = northPolePos # [] \<and>
   distanceTo_double northPolePos northPolePos < DOUBLE_0_08 \<and>
   distanceTo northPolePos northPolePos \<le> 8 / 100 - 1 / 10 ^ 12 \<and>
   stereo_click (click_at northPolePos) (stereo_initial\<lparr>togglePoint := True\<rparr>)
     = stereo_initial\<lparr>togglePoint := True, warning := True\<rparr>"
proof -
  have d: "distanceTo_double northPolePos northPolePos < DOUBLE_0_08"
    by (simp add: double_distance_north_pole DOUBLE_0_08_def)
  have d': "distanceTo northPolePos northPolePos \<le> 8 / 100 - 1 / 10 ^ 12"
    by (simp add: distanceTo_def vec_length_def subVectors_def)
  have f: "\<not> isFrozen (stereo_initial\<lparr>togglePoint := True\<rparr>)"
    by (simp add: stereo_initial_def)
  have c: "target_is_canvas (click_at northPolePos)"
    and i: "intersects (click_at northPolePos) = northPolePos # []"
    by (simp_all add: click_at_def)
  from pole_guard_warns [OF f c i disjI1 [OF d]] d d' f c i show ?thesis
    by (simp add: stereo_initial_def)
qed

text \<open>
  Claim C6 as stated fails: not every clicked point within 0.08 of the north pole raises
  the warning. The coordinates of \<open>near_rim_point\<close> are doubles, the point is on the
  sphere up to \<open>1 / 10 ^ 15\<close>, and its distance from the north pole is less than 0.08.
  The distance the tool computes for it is the double \<open>0.08\<close>, which is not less than
  itself: a click there in point mode raises no warning and draws the projected point.
\<close>

theorem pole_guard_accepts_near_rim:
  "round_double (vec_x near_rim_point) = vec_x near_rim_point \<and>
   round_double (vec_y near_rim_point) = vec_y near_rim_point \<and>
   round_double (vec_z near_rim_point) = vec_z near_rim_point \<and>
   1 \<le> distanceTo near_rim_point spherePos \<and>
   distanceTo near_rim_point spherePos < 1 + 1 / 10 ^ 15 \<and>
   distanceTo near_rim_point northPolePos < 8 / 100 \<and>
   distanceTo_double near_rim_point northPolePos = DOUBLE_0_08 \<and>
   \<not> warning (stereo_click (click_at near_rim_point) (stereo_initial\<lparr>togglePoint := True\<rparr>)) \<and>
   projectGroup (stereo_click (click_at near_rim_point) (stereo_initial\<lparr>togglePoint := True\<rparr>))
     = [Line [Some northPolePos, Some (Vector3 (239999749619341 / 4803839602528) 0 0)] 4473924 1,
        Mesh (Some near_rim_point) (25 / 1000) SPHERE_COLOR,
        Mesh (Some (Vector3 (239999749619341 / 4803839602528) 0 0)) (25 / 1000) PLANE_COLOR]"
proof -
  have "stereo_click (click_at near_rim_point) (stereo_initial\<lparr>togglePoint := True\<rparr>)
      = stereo_point_selection near_rim_point
          (stereo_initial\<lparr>togglePoint := True, warning := False, projectGroup := []\<rparr>)"
    by (subst stereo_click_accepted [where p = near_rim_point and rest = "[]"])
      (simp_all add: near_rim_distance_double stereo_initial_def click_at_def
        stereo_point_selection_def drawLine_def Let_def)
  then have "\<not> warning (stereo_click (click_at near_rim_point)
        (stereo_initial\<lparr>togglePoint := True\<rparr>)) \<and>
      projectGroup (stereo_click (click_at near_rim_point) (stereo_initial\<lparr>togglePoint := True\<rparr>))
      = [Line [Some northPolePos, Some (Vector3 (239999749619341 / 4803839602528) 0 0)] 4473924 1,
         Mesh (Some near_rim_point) (25 / 1000) SPHERE_COLOR,
         Mesh (Some (Vector3 (239999749619341 / 4803839602528) 0 0)) (25 / 1000) PLANE_COLOR]"
    by (simp add: near_rim_projection stereo_point_selection_def drawLine_def
        stereo_initial_def Let_def)
  with near_rim_coordinates near_rim_on_sphere near_rim_within near_rim_distance_double
  show ?thesis
    by (simp only: simp_thms)
qed


section \<open>Accepted clicks of the stereographic tool\<close>

text \<open>
  Claim C10. An accepted click of the stereographic tool is a click on the canvas of the
  unfrozen tool that meets the sphere at a point which passes the pole guard: its distance
  from the north pole, as the tool computes it, is not less than the double \<open>0.08\<close>
  (by \<open>far_in_doubles\<close>, every point at least \<open>0.08 + 1 / 10 ^ 12\<close> from the pole passes it).
  Such a click discards the objects drawn before: what the handler returns is what it
  returns from the state with an empty group and the warning hidden, so only the objects
  of this click are left; with no checkbox checked, the group is left empty.
\<close>

theorem accepted_click_clears:
  assumes "\<not> isFrozen s" and "target_is_canvas event" and "intersects event = p # rest"
    and "\<not> distanceTo_double p northPolePos < DOUBLE_0_08"
  shows "stereo_click event s = stereo_click event (s\<lparr>projectGroup := [], warning := False\<rparr>) \<and>
    (\<not> togglePoint s \<and> \<not> toggleLongitude s \<and> \<not> toggleLatitude s \<longrightarrow>
       stereo_click event s = s\<lparr>projectGroup := [], warning := False\<rparr>)"
proof -
  note far = assms(4)
  have "stereo_click event s = stereo_click event (s\<lparr>projectGroup := [], warning := False\<rparr>)"
    using assms(1-3) far
    by (simp add: stereo_click_accepted [where p = p and rest = rest])
  moreover have "stereo_click event s = s\<lparr>projectGroup := [], warning := False\<rparr>"
    if "\<not> togglePoint s \<and> \<not> toggleLongitude s \<and> \<not> toggleLatitude s"
    using assms(1-3) far that
    by (simp add: stereo_click_accepted [where p = p and rest = rest])
  ultimately show ?thesis
    by blast
qed

theorem accepted_click_clears_witness:
  "\<not> isFrozen (stereo_initial\<lparr>projectGroup := [Line [] 255 1], warning := True\<rparr>) \<and>
   target_is_canvas (click_at (Vector3 0 0 0)) \<and>
   intersects (click_at (Vector3 0 0 0)) = Vector3 0 0 0 # [] \<and>
   \<not> distanceTo_double (Vector3 0 0 0) northPolePos < DOUBLE_0_08 \<and>
   \<not> togglePoint (stereo_initial\<lparr>projectGroup := [Line [] 255 1], warning := True\<rparr>) \<and>
   \<not> toggleLongitude (stereo_initial\<lparr>projectGroup := [Line [] 255 1], warning := True\<rparr>) \<and>
   \<not> toggleLatitude (stereo_initial\<lparr>projectGroup := [Line [] 255 1], warning := True\<rparr>) \<and>
   stereo_click (click_at (Vector3 0 0 0))
       (stereo_initial\<lparr>projectGroup := [Line [] 255 1], warning := True\<rparr>)
     = stereo_initial"
proof -
  have f: "\<not> isFrozen (stereo_initial\<lparr>projectGroup := [Line [] 255 1], warning := True\<rparr>)"
    by (simp add: stereo_initial_def)
  have c: "target_is_canvas (click_at (Vector3 0 0 0))"
    and i: "intersects (click_at (Vector3 0 0 0)) = Vector3 0 0 0 # []"
    by (simp_all add: click_at_def)
  have d: "\<not> distanceTo_double (Vector3 0 0 0) northPolePos < DOUBLE_0_08"
    by (simp add: double_distance_south_pole DOUBLE_0_08_def)
  have "stereo_click (click_at (Vector3 0 0 0))
       (stereo_initial\<lparr>projectGroup := [Line [] 255 1], warning := True\<rparr>)
     = stereo_initial"
    using accepted_click_clears [OF f c i d, THEN conjunct2]
    by (simp add: stereo_initial_def)
  with f c i d show ?thesis
    by (simp add: stereo_initial_def)
qed

section \<open>The selection loops of the Hopf tool\<close>

lemma createHopfFiber_default:
  assumes "fiber_params 1000 = Some ts"
  shows "createHopfFiber n color grp = Some (grp @ [Line (map (fiber_vertex n) ts) color 1])"
  using assms by (simp add: createHopfFiber_def getHopfFiberPoints_def)

lemma length_emitted_fibers: "length (emitted_fibers ts idx ps) = length ps"
  by (induction ps arbitrary: idx) simp_all

lemma hopf_longitude_loop_result:
  assumes "fiber_params 1000 = Some ts"
  shows "hopf_longitude_loop phi is s path =
    Some (s\<lparr>torusGroup := torusGroup s @
               emitted_fibers ts (fiberIndex s)
                 (map (longitude_point phi) (filter (\<lambda>i. i \<le> 100) is)),
            fiberIndex := fiberIndex s + length (filter (\<lambda>i. i \<le> 100) is)\<rparr>,
          path @ map (longitude_point phi) is)"
proof (induction "is" arbitrary: s path)
  case Nil
  show ?case by simp
next
  case (Cons i rest)
  show ?case
  proof (cases "i \<le> 100")
    case True
    then show ?thesis
      by (simp add: Cons.IH createHopfFiber_default [OF assms] current_color_def Let_def)
  next
    case False
    then show ?thesis
      by (simp add: Cons.IH Let_def)
  qed
qed

lemma hopf_latitude_loop_result:
  assumes "fiber_params 1000 = Some ts"
  shows "hopf_latitude_loop r pz is s path =
    Some (s\<lparr>torusGroup := torusGroup s @
               emitted_fibers ts (fiberIndex s) (map (latitude_point r pz) is),
            fiberIndex := fiberIndex s + length is\<rparr>,
          path @ map (latitude_point r pz) is)"
proof (induction "is" arbitrary: s path)
  case Nil
  show ?case by simp
next
  case (Cons i rest)
  show ?case
    by (simp add: Cons.IH createHopfFiber_default [OF assms] current_color_def Let_def)
qed

lemma first_half_indices: "filter (\<lambda>i. i \<le> 100) [0..<201] = [0..<101]"
proof -
  have "[0..<201] = [0..<101] @ [101..<201]"
    using upt_add_eq_append [of 0 101 100] by simp
  moreover have "filter (\<lambda>i. i \<le> 100) [0..<101] = [0..<101]"
    by (rule filter_True) auto
  moreover have "filter (\<lambda>i. i \<le> 100) [101..<201] = []"
    by (rule filter_False) auto
  ultimately show ?thesis
    by simp
qed

lemma hopf_longitude_selection_result:
  assumes "fiber_params 1000 = Some ts"
  shows "hopf_longitude_selection point s =
    Some (s\<lparr>torusGroup :=
               emitted_fibers ts (fiberIndex s)
                 (map (longitude_point (atan2 (vec_y point) (vec_x point))) [0..<101]),
            fiberIndex := fiberIndex s + 101,
            sphereLinesGroup :=
               [Line (map Some (map (longitude_point (atan2 (vec_y point) (vec_x point)))
                  [0..<201])) 0 (1005 / 1000)]\<rparr>)"
  by (simp add: hopf_longitude_selection_def hopf_longitude_loop_result [OF assms]
      first_half_indices drawSelectionCircle_def Let_def del: upt_Suc)

lemma hopf_latitude_selection_result:
  assumes "fiber_params 1000 = Some ts"
  shows "hopf_latitude_selection point s =
    Some (s\<lparr>torusGroup :=
               emitted_fibers ts (fiberIndex s)
                 (map (latitude_point (sqrt (1 - vec_z point * vec_z point)) (vec_z point))
                    [0..<201]),
            fiberIndex := fiberIndex s + 201,
            sphereLinesGroup :=
               [Line (map Some (map (latitude_point (sqrt (1 - vec_z point * vec_z point))
                  (vec_z point)) [0..<201])) 0 (1005 / 1000)]\<rparr>)"
  by (simp add: hopf_latitude_selection_def hopf_latitude_loop_result [OF assms]
      drawSelectionCircle_def Let_def del: upt_Suc)

lemma hopf_point_selection_result:
  assumes "fiber_params 1000 = Some ts"
  shows "hopf_point_selection point s =
    Some (s\<lparr>fiberIndex := fiberIndex s + 1,
            markersGroup := markersGroup s @ [Mesh (Some point) (15 / 1000) 0],
            fibersGroup := fibersGroup s @
              [Line (map (fiber_vertex point) ts) (current_color s) 1]\<rparr>)"
  by (simp add: hopf_point_selection_def createHopfFiber_default [OF assms] createMarker_def
      Let_def)

lemma hopf_click_accepted:
  assumes "\<not> holdScene s" "target_is_canvas event" "intersects event = hit # rest"
  shows "hopf_click event s =
    (case (if selectionMode s then hopf_point_selection (normalize hit) s else Some s) of
       None \<Rightarrow> None
     | Some s1 \<Rightarrow>
         (case (if longitudeMode s1 then hopf_longitude_selection (normalize hit) s1
                else Some s1) of
            None \<Rightarrow> None
          | Some s2 \<Rightarrow>
              (if latitudeMode s2 then hopf_latitude_selection (normalize hit) s2
               else Some s2)))"
  using assms by (simp add: hopf_click_def Let_def)

text \<open>
  Claim C7. An accepted click of the Hopf tool (unfrozen, on the canvas, meeting the sphere)
  returns. With only the longitude flag set it leaves in the torus group exactly the 101
  fibers over the sampled points 0 to 100, and with only the latitude flag set exactly
  the 201 fibers over the sampled points 0 to 200; the fibers take consecutive colours
  from the colour index on, and the index has advanced by the number of fibers.
\<close>

theorem hopf_click_emits_fibers:
  assumes "\<not> holdScene s" and "target_is_canvas event" and "intersects event = hit # rest"
    and "\<not> selectionMode s"
  shows "(longitudeMode s \<and> \<not> latitudeMode s \<longrightarrow>
           (\<exists>ts s'. fiber_params 1000 = Some ts \<and> hopf_click event s = Some s' \<and>
              torusGroup s' = emitted_fibers ts (fiberIndex s)
                (map (longitude_point (atan2 (vec_y (normalize hit)) (vec_x (normalize hit))))
                   [0..<101]) \<and>
              length (torusGroup s') = 101 \<and>
              fiberIndex s' = fiberIndex s + 101)) \<and>
         (latitudeMode s \<and> \<not> longitudeMode s \<longrightarrow>
           (\<exists>ts s'. fiber_params 1000 = Some ts \<and> hopf_click event s = Some s' \<and>
              torusGroup s' = emitted_fibers ts (fiberIndex s)
                (map (latitude_point (sqrt (1 - vec_z (normalize hit) * vec_z (normalize hit)))
                        (vec_z (normalize hit)))
                   [0..<201]) \<and>
              length (torusGroup s') = 201 \<and>
              fiberIndex s' = fiberIndex s + 201))"
proof -
  from fiber_params_1000 obtain ts where ts: "fiber_params 1000 = Some ts"
    by blast
  have lon: "\<exists>s'. hopf_click event s = Some s' \<and>
      torusGroup s' = emitted_fibers ts (fiberIndex s)
        (map (longitude_point (atan2 (vec_y (normalize hit)) (vec_x (normalize hit))))
           [0..<101]) \<and>
      length (torusGroup s') = 101 \<and> fiberIndex s' = fiberIndex s + 101"
    if "longitudeMode s" "\<not> latitudeMode s"
    using assms that
    by (simp add: hopf_click_accepted [where hit = hit and rest = rest]
        hopf_longitude_selection_result [OF ts] length_emitted_fibers del: upt_Suc)
  have lat: "\<exists>s'. hopf_click event s = Some s' \<and>
      torusGroup s' = emitted_fibers ts (fiberIndex s)
        (map (latitude_point (sqrt (1 - vec_z (normalize hit) * vec_z (normalize hit)))
                (vec_z (normalize hit)))
           [0..<201]) \<and>
      length (torusGroup s') = 201 \<and> fiberIndex s' = fiberIndex s + 201"
    if "latitudeMode s" "\<not> longitudeMode s"
    using assms that
    by (simp add: hopf_click_accepted [where hit = hit and rest = rest]
        hopf_latitude_selection_result [OF ts] length_emitted_fibers del: upt_Suc)
  from ts lon lat show ?thesis
    by blast
qed

theorem hopf_click_emits_fibers_witness:
  "\<not> holdScene (hopf_initial\<lparr>longitudeMode := True, longitudeToggle := True, fiberIndex := 5\<rparr>) \<and>
   target_is_canvas (click_at (Vector3 0 2 0)) \<and>
   intersects (click_at (Vector3 0 2 0)) = Vector3 0 2 0 # [] \<and>
   \<not> selectionMode (hopf_initial\<lparr>longitudeMode := True, longitudeToggle := True, fiberIndex := 5\<rparr>) \<and>
   longitudeMode (hopf_initial\<lparr>longitudeMode := True, longitudeToggle := True, fiberIndex := 5\<rparr>) \<and>
   \<not> latitudeMode (hopf_initial\<lparr>longitudeMode := True, longitudeToggle := True, fiberIndex := 5\<rparr>) \<and>
   (\<exists>s'. hopf_click (click_at (Vector3 0 2 0))
            (hopf_initial\<lparr>longitudeMode := True, longitudeToggle := True, fiberIndex := 5\<rparr>)
          = Some s' \<and>
        length (torusGroup s') = 101 \<and> fiberIndex s' = 106)"
proof -
  let ?s = "hopf_initial\<lparr>longitudeMode := True, longitudeToggle := True, fiberIndex := 5\<rparr>"
  have h: "\<not> holdScene ?s" and m: "\<not> selectionMode ?s"
    and l: "longitudeMode ?s" "\<not> latitudeMode ?s" and i: "fiberIndex ?s = 5"
    by (simp_all add: hopf_initial_def)
  have c: "target_is_canvas (click_at (Vector3 0 2 0))"
    and x: "intersects (click_at (Vector3 0 2 0)) = Vector3 0 2 0 # []"
    by (simp_all add: click_at_def)
  from hopf_click_emits_fibers [OF h c x m] l
  have "\<exists>s'. hopf_click (click_at (Vector3 0 2 0)) ?s = Some s' \<and>
      length (torusGroup s') = 101 \<and> fiberIndex s' = fiberIndex ?s + 101"
    by blast
  with h c x m l i show ?thesis
    by simp
qed

section \<open>The longitude curve of the stereographic tool\<close>

lemma stereo_longitude_loop_result:
  "stereo_longitude_loop angle is pointsSphere pointsPlane =
     (pointsSphere @ map (stereo_longitude_point angle) is,
      pointsPlane @ map projectPoint
        (filter (\<lambda>sp. 5 / 100 < distanceTo sp northPolePos)
           (map (stereo_longitude_point angle) is)))"
  by (induction "is" arbitrary: pointsSphere pointsPlane) (simp_all add: Let_def)

lemma stereo_longitude_point_far:
  assumes "cos ((real i / 128) * pi * 2) * cos ((real i / 128) * pi * 2) = 1"
  shows "5 / 100 < distanceTo (stereo_longitude_point angle i) northPolePos"
proof -
  define c where "c = cos ((real i / 128) * pi * 2)"
  define sn where "sn = sin ((real i / 128) * pi * 2)"
  have cc: "c * c = 1"
    using assms by (simp only: c_def)
  have "sn * sn + c * c = 1"
    unfolding c_def sn_def
    using sin_cos_squared_add [of "(real i / 128) * pi * 2"] by (simp only: power2_eq_square)
  with cc have "sn * sn = 0"
    by simp
  then have s0: "sn = 0"
    by simp
  have point: "stereo_longitude_point angle i
      = Vector3 (radius * c * cos angle) (radius * sn + vec_y spherePos) (radius * c * sin angle)"
    by (simp only: stereo_longitude_point_def Let_def c_def sn_def)
  have "(c * cos angle) * (c * cos angle) + (c * sin angle) * (c * sin angle)
      = (c * c) * (cos angle * cos angle + sin angle * sin angle)"
    by algebra
  also have "\<dots> = 1"
    using sin_cos_squared_add2 [of angle] by (simp only: cc power2_eq_square)
  finally have "distanceTo (stereo_longitude_point angle i) northPolePos = sqrt 2"
    unfolding point using s0
    by (simp add: distanceTo_def vec_length_def subVectors_def northPolePos_def
        spherePos_def radius_def)
  moreover have "5 / 100 < sqrt 2"
    by (rule real_less_rsqrt) (simp add: power2_eq_square)
  ultimately show ?thesis
    by simp
qed

lemma two_projected_samples: "1 < length (projected_samples p)"
proof -
  let ?f = "stereo_longitude_point (atan2 (vec_z p) (vec_x p))"
  let ?P = "\<lambda>sp. 5 / 100 < distanceTo sp northPolePos"
  have p0: "?P (?f 0)"
    by (rule stereo_longitude_point_far) simp
  have p128: "?P (?f 128)"
    by (rule stereo_longitude_point_far) simp
  have split: "[0..<129] = 0 # [1..<129]"
    by (simp add: upt_conv_Cons del: upt_Suc)
  have "?f 128 \<in> set (map ?f [1..<129])"
    by (simp del: upt_Suc)
  with p128 have "filter ?P (map ?f [1..<129]) \<noteq> []"
    by (simp only: filter_empty_conv) blast
  then have "0 < length (filter ?P (map ?f [1..<129]))"
    by (simp only: length_greater_0_conv not_False_eq_True)
  moreover have "projected_samples p = ?f 0 # filter ?P (map ?f [1..<129])"
    unfolding projected_samples_def longitude_samples_def split
    using p0 by (simp only: list.map filter.simps if_True)
  ultimately show ?thesis
    by simp
qed

lemma stereo_longitude_selection_result:
  "stereo_longitude_selection p s =
     s\<lparr>projectGroup := projectGroup s @
         [Line (map Some (longitude_samples p)) SPHERE_COLOR 1,
          Line (map projectPoint (projected_samples p)) PLANE_COLOR 1]\<rparr>"
  using two_projected_samples [of p]
  by (simp add: stereo_longitude_selection_def stereo_longitude_loop_result drawLine_def
      longitude_samples_def projected_samples_def Let_def del: upt_Suc)

text \<open>
  Claim C9. An accepted click of the stereographic tool (on the canvas of the unfrozen tool,
  at a point that passes the pole guard) with only the longitude checkbox checked draws
  two polylines. The one on the sphere has all 129 sampled points. The one on the plane
  has the projections of exactly the sampled points farther than 0.05 from the north
  pole, in order: no sampled point within 0.05 of the pole is projected into it.
\<close>

theorem longitude_curve_skips_pole:
  assumes "\<not> isFrozen s" and "target_is_canvas event" and "intersects event = p # rest"
    and "\<not> distanceTo_double p northPolePos < DOUBLE_0_08"
    and "toggleLongitude s" and "\<not> togglePoint s" and "\<not> toggleLatitude s"
  shows "projectGroup (stereo_click event s) =
           [Line (map Some (longitude_samples p)) SPHERE_COLOR 1,
            Line (map projectPoint (projected_samples p)) PLANE_COLOR 1] \<and>
         length (longitude_samples p) = 129 \<and>
         (\<forall>sp \<in> set (longitude_samples p).
            distanceTo sp northPolePos \<le> 5 / 100 \<longrightarrow> sp \<notin> set (projected_samples p)) \<and>
         (\<forall>sp \<in> set (longitude_samples p).
            5 / 100 < distanceTo sp northPolePos \<longrightarrow> sp \<in> set (projected_samples p))"
proof -
  have "stereo_click event s
      = stereo_longitude_selection p (s\<lparr>warning := False, projectGroup := []\<rparr>)"
    using assms by (simp add: stereo_click_accepted [where p = p and rest = rest])
  then have "projectGroup (stereo_click event s) =
      [Line (map Some (longitude_samples p)) SPHERE_COLOR 1,
       Line (map projectPoint (projected_samples p)) PLANE_COLOR 1]"
    by (simp add: stereo_longitude_selection_result)
  moreover have "length (longitude_samples p) = 129"
    by (simp add: longitude_samples_def del: upt_Suc)
  ultimately show ?thesis
    by (simp add: projected_samples_def)
qed

theorem longitude_curve_skips_pole_witness:
  "\<not> isFrozen (stereo_initial\<lparr>toggleLongitude := True\<rparr>) \<and>
   target_is_canvas (click_at (Vector3 0 0 0)) \<and>
   intersects (click_at (Vector3 0 0 0)) = Vector3 0 0 0 # [] \<and>
   \<not> distanceTo_double (Vector3 0 0 0) northPolePos < DOUBLE_0_08 \<and>
   toggleLongitude (stereo_initial\<lparr>toggleLongitude := True\<rparr>) \<and>
   \<not> togglePoint (stereo_initial\<lparr>toggleLongitude := True\<rparr>) \<and>
   \<not> toggleLatitude (stereo_initial\<lparr>toggleLongitude := True\<rparr>) \<and>
   northPolePos \<in> set (longitude_samples (Vector3 0 0 0)) \<and>
   distanceTo northPolePos northPolePos \<le> 5 / 100 \<and>
   northPolePos \<notin> set (projected_samples (Vector3 0 0 0)) \<and>
   projectGroup (stereo_click (click_at (Vector3 0 0 0)) (stereo_initial\<lparr>toggleLongitude := True\<rparr>))
     = [Line (map Some (longitude_samples (Vector3 0 0 0))) SPHERE_COLOR 1,
        Line (map projectPoint (projected_samples (Vector3 0 0 0))) PLANE_COLOR 1]"
proof -
  let ?s = "stereo_initial\<lparr>toggleLongitude := True\<rparr>"
  have f: "\<not> isFrozen ?s" and l: "toggleLongitude ?s"
    and q: "\<not> togglePoint ?s" and a: "\<not> toggleLatitude ?s"
    by (simp_all add: stereo_initial_def)
  have c: "target_is_canvas (click_at (Vector3 0 0 0))"
    and i: "intersects (click_at (Vector3 0 0 0)) = Vector3 0 0 0 # []"
    by (simp_all add: click_at_def)
  have d: "\<not> distanceTo_double (Vector3 0 0 0) northPolePos < DOUBLE_0_08"
    by (simp add: double_distance_south_pole DOUBLE_0_08_def)
  have "stereo_longitude_point (atan2 0 0) 32 = northPolePos"
    by (simp add: stereo_longitude_point_def atan2_def northPolePos_def spherePos_def
        radius_def)
  then have "northPolePos \<in> stereo_longitude_point (atan2 0 0) ` set [0..<129]"
    by (intro image_eqI [where x = 32]) simp_all
  then have m: "northPolePos \<in> set (longitude_samples (Vector3 0 0 0))"
    by (simp add: longitude_samples_def del: upt_Suc)
  have n: "distanceTo northPolePos northPolePos \<le> 5 / 100"
    by (simp add: distanceTo_def vec_length_def subVectors_def)
  note r = longitude_curve_skips_pole [OF f c i d l q a]
  from r m n have "northPolePos \<notin> set (projected_samples (Vector3 0 0 0))"
    by blast
  with r f c i d l q a m n show ?thesis
    by blast
qed

section \<open>The curves of a selection\<close>

lemma stereo_latitude_loop_result:
  "stereo_latitude_loop r py is pointsSphere pointsPlane =
     (pointsSphere @ map (stereo_latitude_point r py) is,
      pointsPlane @ map (\<lambda>i. projectPoint (stereo_latitude_point r py i)) is)"
  by (induction "is" arbitrary: pointsSphere pointsPlane) (simp_all add: Let_def)

lemma stereo_latitude_selection_result:
  "stereo_latitude_selection p s =
     s\<lparr>projectGroup := projectGroup s @
         [Line (map Some (map (stereo_latitude_point
                  (sqrt (max 0 (radius * radius
                     - (vec_y p - vec_y spherePos) * (vec_y p - vec_y spherePos))))
                  (vec_y p)) [0..<129])) SPHERE_COLOR 1,
          Line (map (\<lambda>i. projectPoint (stereo_latitude_point
                  (sqrt (max 0 (radius * radius
                     - (vec_y p - vec_y spherePos) * (vec_y p - vec_y spherePos))))
                  (vec_y p) i)) [0..<129]) PLANE_COLOR 1]\<rparr>"
  by (simp add: stereo_latitude_selection_def stereo_latitude_loop_result drawLine_def
      Let_def del: upt_Suc)

lemma ends_of_samples:
  "hd (map f [0..<Suc n]) = f 0 \<and> last (map f [0..<Suc n]) = f n"
proof -
  have ne: "[0..<Suc n] \<noteq> []"
    by simp
  have "hd [0..<Suc n] = 0"
    by (rule hd_upt) simp
  moreover have "last [0..<Suc n] = n"
    using last_upt [of 0 "Suc n"] by simp
  ultimately show ?thesis
    by (simp only: hd_map [OF ne] last_map [OF ne])
qed

lemma longitude_point_ends: "longitude_point phi 0 = longitude_point phi 200"
  by (simp add: longitude_point_def)

lemma latitude_point_ends: "latitude_point r pz 0 = latitude_point r pz 200"
  by (simp add: latitude_point_def)

lemma stereo_latitude_point_ends: "stereo_latitude_point r py 0 = stereo_latitude_point r py 128"
  by (simp add: stereo_latitude_point_def)

lemma stereo_longitude_point_ends: "stereo_longitude_point angle 0 = stereo_longitude_point angle 128"
  by (simp add: stereo_longitude_point_def)

lemma closed_201:
  assumes "f 0 = f 200"
  shows "length (map f [0..<201]) = 201 \<and> hd (map f [0..<201]) = last (map f [0..<201])"
proof -
  have s: "(201::nat) = Suc 200"
    by simp
  have "hd (map f [0..<201]) = last (map f [0..<201])"
    unfolding s using ends_of_samples [of f 200] by (simp only: assms)
  then show ?thesis
    by (simp del: upt_Suc)
qed

lemma closed_129:
  assumes "f 0 = f 128"
  shows "length (map f [0..<129]) = 129 \<and> hd (map f [0..<129]) = last (map f [0..<129])"
proof -
  have s: "(129::nat) = Suc 128"
    by simp
  have "hd (map f [0..<129]) = last (map f [0..<129])"
    unfolding s using ends_of_samples [of f 128] by (simp only: assms)
  then show ?thesis
    by (simp del: upt_Suc)
qed

text \<open>
  Claim C8. Whatever the selected point, the curve that a click draws on the sphere is a
  closed polyline: its list of sampled points is not empty and its first and last points
  are equal. The equality is exact in real arithmetic: the first angle is 0 and the last
  is \<open>2 * pi\<close>.
  \<^item> In the Hopf tool, a click on the canvas of the unfrozen tool that meets the sphere, in
    longitude or latitude mode, returns and leaves in the group of sphere lines one
    polyline, the guide circle, scaled by 1.005: the 201 points sampled by the latitude
    loop if latitude mode is set, by the longitude loop otherwise.
  \<^item> In the stereographic tool, an accepted click with the point checkbox unchecked and
    exactly one of the latitude and longitude checkboxes checked draws two polylines, of
    which the first, the one on the sphere, has the 129 points sampled by the loop of
    that checkbox.
\<close>

theorem selection_curves_closed:
  assumes "\<not> holdScene hs" and "target_is_canvas e" and "intersects e = hit # rest"
    and "longitudeMode hs \<or> latitudeMode hs"
    and "\<not> isFrozen ss" and "target_is_canvas e'" and "intersects e' = p # rest'"
    and "\<not> distanceTo_double p northPolePos < DOUBLE_0_08"
    and "\<not> togglePoint ss" and "toggleLatitude ss \<noteq> toggleLongitude ss"
  shows "(\<exists>hs' path. hopf_click e hs = Some hs' \<and>
            sphereLinesGroup hs' = [Line (map Some path) 0 (1005 / 1000)] \<and>
            path = (if latitudeMode hs
                    then map (latitude_point
                           (sqrt (1 - vec_z (normalize hit) * vec_z (normalize hit)))
                           (vec_z (normalize hit))) [0..<201]
                    else map (longitude_point
                           (atan2 (vec_y (normalize hit)) (vec_x (normalize hit)))) [0..<201]) \<and>
            length path = 201 \<and> hd path = last path) \<and>
         (\<exists>path plane. projectGroup (stereo_click e' ss)
              = [Line (map Some path) SPHERE_COLOR 1, Line plane PLANE_COLOR 1] \<and>
            path = (if toggleLatitude ss
                    then map (stereo_latitude_point
                           (sqrt (max 0 (radius * radius
                              - (vec_y p - vec_y spherePos) * (vec_y p - vec_y spherePos))))
                           (vec_y p)) [0..<129]
                    else map (stereo_longitude_point (atan2 (vec_z p) (vec_x p))) [0..<129]) \<and>
            length path = 129 \<and> hd path = last path)"
proof -
  from fiber_params_1000 obtain ts where ts: "fiber_params 1000 = Some ts"
    by blast
  let ?lat = "map (latitude_point (sqrt (1 - vec_z (normalize hit) * vec_z (normalize hit)))
      (vec_z (normalize hit))) [0..<201]"
  let ?lon = "map (longitude_point (atan2 (vec_y (normalize hit)) (vec_x (normalize hit))))
      [0..<201]"
  have lat: "length ?lat = 201 \<and> hd ?lat = last ?lat"
    by (rule closed_201) (rule latitude_point_ends)
  have lon: "length ?lon = 201 \<and> hd ?lon = last ?lon"
    by (rule closed_201) (rule longitude_point_ends)
  have hopf: "\<exists>hs'. hopf_click e hs = Some hs' \<and>
      sphereLinesGroup hs' = [Line (map Some (if latitudeMode hs then ?lat else ?lon)) 0
        (1005 / 1000)]"
    using assms(1-4)
    by (auto simp: hopf_click_accepted [where hit = hit and rest = rest]
        hopf_point_selection_result [OF ts] hopf_longitude_selection_result [OF ts]
        hopf_latitude_selection_result [OF ts] simp del: upt_Suc)
  let ?slat = "map (stereo_latitude_point
      (sqrt (max 0 (radius * radius - (vec_y p - vec_y spherePos) * (vec_y p - vec_y spherePos))))
      (vec_y p)) [0..<129]"
  let ?slon = "map (stereo_longitude_point (atan2 (vec_z p) (vec_x p))) [0..<129]"
  have slat: "length ?slat = 129 \<and> hd ?slat = last ?slat"
    by (rule closed_129) (rule stereo_latitude_point_ends)
  have slon: "length ?slon = 129 \<and> hd ?slon = last ?slon"
    by (rule closed_129) (rule stereo_longitude_point_ends)
  have stereo: "\<exists>plane. projectGroup (stereo_click e' ss)
      = [Line (map Some (if toggleLatitude ss then ?slat else ?slon)) SPHERE_COLOR 1,
         Line plane PLANE_COLOR 1]"
    using assms(5-10)
    by (auto simp: stereo_click_accepted [where p = p and rest = rest']
        stereo_latitude_selection_result stereo_longitude_selection_result
        longitude_samples_def simp del: upt_Suc)
  from hopf lat lon have "\<exists>hs' path. hopf_click e hs = Some hs' \<and>
      sphereLinesGroup hs' = [Line (map Some path) 0 (1005 / 1000)] \<and>
      path = (if latitudeMode hs then ?lat else ?lon) \<and>
      length path = 201 \<and> hd path = last path"
    by (cases "latitudeMode hs") auto
  moreover from stereo slat slon have "\<exists>path plane. projectGroup (stereo_click e' ss)
      = [Line (map Some path) SPHERE_COLOR 1, Line plane PLANE_COLOR 1] \<and>
      path = (if toggleLatitude ss then ?slat else ?slon) \<and>
      length path = 129 \<and> hd path = last path"
    by (cases "toggleLatitude ss") auto
  ultimately show ?thesis
    by (rule conjI)
qed

theorem selection_curves_closed_witness:
  "\<not> holdScene (hopf_initial\<lparr>latitudeMode := True, latitudeToggle := True\<rparr>) \<and>
   target_is_canvas (click_at (Vector3 0 2 0)) \<and>
   intersects (click_at (Vector3 0 2 0)) = Vector3 0 2 0 # [] \<and>
   latitudeMode (hopf_initial\<lparr>latitudeMode := True, latitudeToggle := True\<rparr>) \<and>
   \<not> isFrozen (stereo_initial\<lparr>toggleLatitude := True\<rparr>) \<and>
   target_is_canvas (click_at (Vector3 0 0 0)) \<and>
   intersects (click_at (Vector3 0 0 0)) = Vector3 0 0 0 # [] \<and>
   \<not> distanceTo_double (Vector3 0 0 0) northPolePos < DOUBLE_0_08 \<and>
   \<not> togglePoint (stereo_initial\<lparr>toggleLatitude := True\<rparr>) \<and>
   toggleLatitude (stereo_initial\<lparr>toggleLatitude := True\<rparr>) \<and>
   \<not> toggleLongitude (stereo_initial\<lparr>toggleLatitude := True\<rparr>) \<and>
   (\<exists>hs' path. hopf_click (click_at (Vector3 0 2 0))
        (hopf_initial\<lparr>latitudeMode := True, latitudeToggle := True\<rparr>) = Some hs' \<and>
      sphereLinesGroup hs' = [Line (map Some path) 0 (1005 / 1000)] \<and>
      length path = 201 \<and> hd path = last path) \<and>
   (\<exists>path plane. projectGroup (stereo_click (click_at (Vector3 0 0 0))
        (stereo_initial\<lparr>toggleLatitude := True\<rparr>))
        = [Line (map Some path) SPHERE_COLOR 1, Line plane PLANE_COLOR 1] \<and>
      length path = 129 \<and> hd path = last path)"
proof -
  let ?hs = "hopf_initial\<lparr>latitudeMode := True, latitudeToggle := True\<rparr>"
  let ?ss = "stereo_initial\<lparr>toggleLatitude := True\<rparr>"
  have h: "\<not> holdScene ?hs" and m: "latitudeMode ?hs"
    by (simp_all add: hopf_initial_def)
  then have m': "longitudeMode ?hs \<or> latitudeMode ?hs"
    by simp
  have c: "target_is_canvas (click_at (Vector3 0 2 0))"
    and x: "intersects (click_at (Vector3 0 2 0)) = Vector3 0 2 0 # []"
    and c': "target_is_canvas (click_at (Vector3 0 0 0))"
    and x': "intersects (click_at (Vector3 0 0 0)) = Vector3 0 0 0 # []"
    by (simp_all add: click_at_def)
  have f: "\<not> isFrozen ?ss" and q: "\<not> togglePoint ?ss"
    and a: "toggleLatitude ?ss" and l: "\<not> toggleLongitude ?ss"
    by (simp_all add: stereo_initial_def)
  then have al: "toggleLatitude ?ss \<noteq> toggleLongitude ?ss"
    by simp
  have d: "\<not> distanceTo_double (Vector3 0 0 0) northPolePos < DOUBLE_0_08"
    by (simp add: double_distance_south_pole DOUBLE_0_08_def)
  note r = selection_curves_closed [OF h c x m' f c' x' d q al]
  from r have "\<exists>hs' path. hopf_click (click_at (Vector3 0 2 0)) ?hs = Some hs' \<and>
      sphereLinesGroup hs' = [Line (map Some path) 0 (1005 / 1000)] \<and>
      length path = 201 \<and> hd path = last path"
    by blast
  moreover from r have "\<exists>path plane. projectGroup (stereo_click (click_at (Vector3 0 0 0)) ?ss)
      = [Line (map Some path) SPHERE_COLOR 1, Line plane PLANE_COLOR 1] \<and>
      length path = 129 \<and> hd path = last path"
    by blast
  ultimately show ?thesis
    using h c x m f c' x' d q a l by blast
qed


section \<open>Runs of the tools\<close>

lemma hopf_click_keeps_modes:
  assumes "hopf_click event s = Some s'"
  shows "pointToggle s' = pointToggle s \<and> longitudeToggle s' = longitudeToggle s \<and>
    latitudeToggle s' = latitudeToggle s \<and> selectionMode s' = selectionMode s \<and>
    longitudeMode s' = longitudeMode s \<and> latitudeMode s' = latitudeMode s \<and>
    holdScene s' = holdScene s"
proof -
  from fiber_params_1000 obtain ts where ts: "fiber_params 1000 = Some ts"
    by blast
  show ?thesis
    using assms
    by (auto simp: hopf_click_def Let_def hopf_point_selection_result [OF ts]
        hopf_longitude_selection_result [OF ts] hopf_latitude_selection_result [OF ts]
        split: if_splits list.splits simp del: upt_Suc)
qed

lemma hopf_click_returns: "\<exists>s'. hopf_click event s = Some s'"
proof -
  from fiber_params_1000 obtain ts where ts: "fiber_params 1000 = Some ts"
    by blast
  show ?thesis
    by (simp add: hopf_click_def Let_def hopf_point_selection_result [OF ts]
        hopf_longitude_selection_result [OF ts] hopf_latitude_selection_result [OF ts]
        split: list.splits del: upt_Suc)
qed

lemma hopf_handle_returns: "\<exists>s'. hopf_handle e s = Some s'"
  by (cases e) (simp_all add: hopf_click_returns)

text \<open>Every run of the Hopf tool returns.\<close>

lemma hopf_run_returns: "\<exists>s'. hopf_run events s = Some s'"
proof (induction events arbitrary: s)
  case Nil
  show ?case by simp
next
  case (Cons e es)
  from hopf_handle_returns obtain s1 where "hopf_handle e s = Some s1"
    by blast
  with Cons.IH [of s1] show ?case
    by simp
qed

lemma hopf_handle_consistent:
  assumes "hopf_handle e s = Some s'" and "hopf_modes_consistent s"
  shows "hopf_modes_consistent s'"
proof (cases e)
  case (Click event)
  with assms show ?thesis
    using hopf_click_keeps_modes [of event s s'] by (simp add: hopf_modes_consistent_def)
next
  case ResetClick
  with assms show ?thesis
    by (auto simp: hopf_modes_consistent_def hopf_reset_click_def clearPreviousSelections_def
        at_most_one_def)
next
  case FreezeClick
  with assms show ?thesis
    by (auto simp: hopf_modes_consistent_def hopf_freeze_click_def)
next
  case (ToggleClick t)
  with assms show ?thesis
    using hopf_toggle_at_most_one [of s t] hopf_toggle_flags [of t s]
    by (auto simp: hopf_modes_consistent_def)
qed

lemma hopf_run_consistent:
  assumes "hopf_run events s = Some s'" and "hopf_modes_consistent s"
  shows "hopf_modes_consistent s'"
  using assms
proof (induction events arbitrary: s)
  case Nil
  then show ?case by simp
next
  case (Cons e es)
  then show ?case
    by (auto split: option.splits dest: hopf_handle_consistent)
qed

lemma stereo_click_keeps_toggles:
  "togglePoint (stereo_click event s) = togglePoint s \<and>
   toggleLongitude (stereo_click event s) = toggleLongitude s \<and>
   toggleLatitude (stereo_click event s) = toggleLatitude s"
  by (simp add: stereo_click_def stereo_point_selection_def stereo_latitude_selection_def
      stereo_longitude_selection_def drawLine_def Let_def
      split: list.splits prod.splits)

lemma stereo_handle_at_most_one:
  assumes "at_most_one (togglePoint s) (toggleLongitude s) (toggleLatitude s)"
  shows "at_most_one (togglePoint (stereo_handle e s)) (toggleLongitude (stereo_handle e s))
    (toggleLatitude (stereo_handle e s))"
proof (cases e)
  case (Click event)
  with assms show ?thesis
    by (simp add: stereo_click_keeps_toggles)
next
  case ResetClick
  then show ?thesis
    by (simp add: stereo_reset_click_def resetExhibition_def at_most_one_def)
next
  case FreezeClick
  with assms show ?thesis
    by (simp add: stereo_freeze_click_def)
next
  case (ToggleClick t)
  with assms show ?thesis
    by (simp add: stereo_toggle_at_most_one)
qed

lemma stereo_run_at_most_one:
  assumes "at_most_one (togglePoint s) (toggleLongitude s) (toggleLatitude s)"
  shows "at_most_one (togglePoint (stereo_run events s)) (toggleLongitude (stereo_run events s))
    (toggleLatitude (stereo_run events s))"
  using assms
  by (induction events arbitrary: s) (simp_all add: stereo_handle_at_most_one)

lemma initial_states_consistent:
  "hopf_modes_consistent hopf_initial"
  "at_most_one (togglePoint stereo_initial) (toggleLongitude stereo_initial)
     (toggleLatitude stereo_initial)"
  by (simp_all add: hopf_modes_consistent_def hopf_initial_def stereo_initial_def
      at_most_one_def)

text \<open>
  Claim C4. A change event is the user flipping one checkbox \<open>t\<close>, after which the handler
  of that checkbox runs. In both tools:
  \<^item> every run of the tool from its initial state returns, and in the state it reaches,
    hence after every change event of a run, at most one checkbox is checked (and, in
    the Hopf tool, at most one mode flag is set);
  \<^item> from any state with at most one checkbox checked, a change event leads to a state
    with at most one checkbox checked;
  \<^item> a change event that activates \<open>t\<close> (it was unchecked) leaves, from any state
    whatever, \<open>t\<close> as the only checkbox checked and every group of the tool empty.

  In the Hopf tool the three mode flags equal the three checkboxes after the event.
\<close>

theorem mode_toggles_exclusive:
  "(\<exists>hr. hopf_run events hopf_initial = Some hr \<and>
      at_most_one (pointToggle hr) (longitudeToggle hr) (latitudeToggle hr) \<and>
      at_most_one (selectionMode hr) (longitudeMode hr) (latitudeMode hr)) \<and>
   at_most_one (togglePoint (stereo_run events' stereo_initial))
     (toggleLongitude (stereo_run events' stereo_initial))
     (toggleLatitude (stereo_run events' stereo_initial)) \<and>
   (at_most_one (pointToggle hs) (longitudeToggle hs) (latitudeToggle hs) \<longrightarrow>
      at_most_one (pointToggle (hopf_user_toggles t hs))
        (longitudeToggle (hopf_user_toggles t hs)) (latitudeToggle (hopf_user_toggles t hs))) \<and>
   (\<not> hopf_checked t hs \<longrightarrow>
      (\<forall>u. hopf_checked u (hopf_user_toggles t hs) = (u = t)) \<and>
      hopf_artifacts (hopf_user_toggles t hs) = []) \<and>
   selectionMode (hopf_user_toggles t hs) = pointToggle (hopf_user_toggles t hs) \<and>
   longitudeMode (hopf_user_toggles t hs) = longitudeToggle (hopf_user_toggles t hs) \<and>
   latitudeMode (hopf_user_toggles t hs) = latitudeToggle (hopf_user_toggles t hs) \<and>
   (at_most_one (togglePoint ss) (toggleLongitude ss) (toggleLatitude ss) \<longrightarrow>
      at_most_one (togglePoint (stereo_user_toggles t' ss))
        (toggleLongitude (stereo_user_toggles t' ss)) (toggleLatitude (stereo_user_toggles t' ss))) \<and>
   (\<not> stereo_checked t' ss \<longrightarrow>
      (\<forall>u. stereo_checked u (stereo_user_toggles t' ss) = (u = t')) \<and>
      projectGroup (stereo_user_toggles t' ss) = [])"
proof -
  from hopf_run_returns obtain hr where run: "hopf_run events hopf_initial = Some hr"
    by blast
  from hopf_run_consistent [OF run initial_states_consistent(1)]
  have "at_most_one (pointToggle hr) (longitudeToggle hr) (latitudeToggle hr) \<and>
      at_most_one (selectionMode hr) (longitudeMode hr) (latitudeMode hr)"
    by (simp add: hopf_modes_consistent_def)
  with run have r: "\<exists>hr. hopf_run events hopf_initial = Some hr \<and>
      at_most_one (pointToggle hr) (longitudeToggle hr) (latitudeToggle hr) \<and>
      at_most_one (selectionMode hr) (longitudeMode hr) (latitudeMode hr)"
    by blast
  have r': "at_most_one (togglePoint (stereo_run events' stereo_initial))
      (toggleLongitude (stereo_run events' stereo_initial))
      (toggleLatitude (stereo_run events' stereo_initial))"
    by (rule stereo_run_at_most_one) (rule initial_states_consistent(2))
  have a: "\<not> hopf_checked t hs \<Longrightarrow> hopf_checked u (hopf_user_toggles t hs) = (u = t)" for u
    by (cases u; cases t) (simp_all add: hopf_toggle_activate clearPreviousSelections_def)
  have b: "\<not> hopf_checked t hs \<Longrightarrow> hopf_artifacts (hopf_user_toggles t hs) = []"
    by (simp add: hopf_toggle_activate clearPreviousSelections_def hopf_artifacts_def)
  have c: "\<not> stereo_checked t' ss \<Longrightarrow> stereo_checked u (stereo_user_toggles t' ss) = (u = t')" for u
    by (cases u; cases t') (simp_all add: stereo_toggle_activate)
  have d: "\<not> stereo_checked t' ss \<Longrightarrow> projectGroup (stereo_user_toggles t' ss) = []"
    by (simp add: stereo_toggle_activate)
  show ?thesis
    using r r' a b c d hopf_toggle_at_most_one [of hs t] stereo_toggle_at_most_one [of ss t']
      hopf_toggle_flags [of t hs]
    by blast
qed

theorem mode_toggles_exclusive_witness:
  "at_most_one
     (pointToggle (hopf_initial\<lparr>longitudeToggle := True, longitudeMode := True,
        torusGroup := [Line [] 255 1]\<rparr>))
     (longitudeToggle (hopf_initial\<lparr>longitudeToggle := True, longitudeMode := True,
        torusGroup := [Line [] 255 1]\<rparr>))
     (latitudeToggle (hopf_initial\<lparr>longitudeToggle := True, longitudeMode := True,
        torusGroup := [Line [] 255 1]\<rparr>)) \<and>
   \<not> hopf_checked PointBox
       (hopf_initial\<lparr>longitudeToggle := True, longitudeMode := True,
          torusGroup := [Line [] 255 1]\<rparr>) \<and>
   hopf_user_toggles PointBox
       (hopf_initial\<lparr>longitudeToggle := True, longitudeMode := True,
          torusGroup := [Line [] 255 1]\<rparr>)
     = hopf_initial\<lparr>pointToggle := True, selectionMode := True\<rparr> \<and>
   at_most_one
     (togglePoint (stereo_initial\<lparr>toggleLongitude := True, projectGroup := [Line [] 255 1]\<rparr>))
     (toggleLongitude (stereo_initial\<lparr>toggleLongitude := True, projectGroup := [Line [] 255 1]\<rparr>))
     (toggleLatitude (stereo_initial\<lparr>toggleLongitude := True, projectGroup := [Line [] 255 1]\<rparr>)) \<and>
   \<not> stereo_checked LatitudeBox
       (stereo_initial\<lparr>toggleLongitude := True, projectGroup := [Line [] 255 1]\<rparr>) \<and>
   stereo_user_toggles LatitudeBox
       (stereo_initial\<lparr>toggleLongitude := True, projectGroup := [Line [] 255 1]\<rparr>)
     = stereo_initial\<lparr>toggleLatitude := True\<rparr> \<and>
   hopf_run [ToggleClick LongitudeBox, ToggleClick PointBox] hopf_initial
     = Some (hopf_initial\<lparr>pointToggle := True, selectionMode := True\<rparr>) \<and>
   stereo_run [ToggleClick PointBox, ToggleClick LatitudeBox] stereo_initial
     = stereo_initial\<lparr>toggleLatitude := True\<rparr>"
  using mode_toggles_exclusive
    [where events = "[ToggleClick LongitudeBox, ToggleClick PointBox]"
       and events' = "[ToggleClick PointBox, ToggleClick LatitudeBox]"
       and hs = "hopf_initial\<lparr>longitudeToggle := True, longitudeMode := True,
          torusGroup := [Line [] 255 1]\<rparr>"
       and t = PointBox
       and ss = "stereo_initial\<lparr>toggleLongitude := True, projectGroup := [Line [] 255 1]\<rparr>"
       and t' = LatitudeBox]
  by (simp add: hopf_initial_def stereo_initial_def at_most_one_def
      hopf_user_toggles_def hopf_toggle_change_def clearPreviousSelections_def
      stereo_user_toggles_def stereo_toggle_change_def)

end
